theory Spec2Isabelle
  imports Complex_Main
begin

section \<open>Values, errors and strings\<close>

text \<open>
  The tables of the program hold Python numbers (\<open>int\<close> and \<open>float\<close>). They are
  modelled as exact reals: rounding of floating-point arithmetic is not part of the model,
  except in \<open>product_float\<close> and \<open>get_tai_float\<close> below, which follow the running product
  of \<open>utils.product\<close> in binary64 arithmetic, where it underflows.
  A Python \<open>dict\<close> that the program iterates over is an association list in insertion
  order; a \<open>dict\<close> that is only indexed is a map. Every exception the source can raise
  is a value of \<open>py_error\<close>, and a function that can raise returns \<open>py_error + 'a\<close>.

  \<open>ComplexValue\<close> is not an exception: Python's \<open>**\<close> returns a complex number for a
  negative base and a fractional exponent, and the model of real-valued tables stops there.
  \<open>FloatInfinity\<close> is not an exception either: a float product that overflows is \<open>inf\<close>
  in Python, and the binary64 model of the product stops there.
  \<open>EmptySequenceError\<close> is the name the specification uses for scoring an empty codon
  list; no function of the source raises it.
\<close>

datatype py_error =
    TypeError | KeyError | IndexError | ValueError | ZeroDivisionError | AttributeError
  | ComplexValue | FloatInfinity | EmptySequenceError

definition lower_char :: "char \<Rightarrow> char" where
  "lower_char c =
     (case map_of (zip ''ABCDEFGHIJKLMNOPQRSTUVWXYZ'' ''abcdefghijklmnopqrstuvwxyz'') c of
        None \<Rightarrow> c
      | Some d \<Rightarrow> d)"

text \<open>\<open>str.lower()\<close> on the ASCII letters, and \<open>str.replace(a, b)\<close> for one-character
  arguments.\<close>

definition str_lower :: "string \<Rightarrow> string" where
  "str_lower s = map lower_char s"

definition str_replace :: "char \<Rightarrow> char \<Rightarrow> string \<Rightarrow> string" where
  "str_replace a b s = map (\<lambda>c. if c = a then b else c) s"

text \<open>The key normalisation \<open>k.lower().replace("u","t")\<close> used at every ingestion point.\<close>

definition normalize_key :: "string \<Rightarrow> string" where
  "normalize_key k = str_replace CHR ''u'' CHR ''t'' (str_lower k)"

section \<open>utils.py\<close>

text \<open>\<open>reduce(lambda x,y: x*y, xs)\<close> without an initial value raises \<open>TypeError\<close> on an
  empty list.\<close>

fun product :: "real list \<Rightarrow> py_error + real" where
  "product [] = Inl TypeError"
| "product (x # xs) = Inr (fold (\<lambda>y acc. acc * y) xs x)"

text \<open>\<open>p ** (1/n)\<close> for a list length \<open>n \<ge> 1\<close>: the exponent is an integer only for
  \<open>n = 1\<close>, where Python returns \<open>p\<close> itself.\<close>

definition pow_inv :: "real \<Rightarrow> nat \<Rightarrow> py_error + real" where
  "pow_inv p n =
     (if 0 \<le> p then Inr (p powr (1 / real n))
      else if n = 1 then Inr p
      else Inl ComplexValue)"

definition geo_mean :: "real list \<Rightarrow> py_error + real" where
  "geo_mean xs =
     (case product xs of
        Inl e \<Rightarrow> Inl e
      | Inr p \<Rightarrow> pow_inv p (length xs))"

section \<open>biochem.py\<close>

definition bases :: string where
  "bases = ''tcag''"

definition codons :: "string list" where
  "codons = concat (map (\<lambda>x. concat (map (\<lambda>y. map (\<lambda>z. [x, y, z]) bases) bases)) bases)"

definition complement :: "char \<rightharpoonup> char" where
  "complement = map_of
     [(CHR ''t'', CHR ''a''), (CHR ''u'', CHR ''a''), (CHR ''a'', CHR ''t''),
      (CHR ''c'', CHR ''g''), (CHR ''g'', CHR ''c'')]"

text \<open>The loop of \<open>rev_compl\<close>: \<open>complement[x]\<close> raises \<open>KeyError\<close> on any other
  character.\<close>

fun compl_loop :: "string \<Rightarrow> string \<Rightarrow> py_error + string" where
  "compl_loop [] acc = Inr acc"
| "compl_loop (x # xs) acc =
     (case complement x of
        None \<Rightarrow> Inl KeyError
      | Some y \<Rightarrow> compl_loop xs (acc @ [y]))"

definition rev_compl :: "string \<Rightarrow> bool \<Rightarrow> py_error + string" where
  "rev_compl sequence use_uracil =
     (case compl_loop (str_lower (rev sequence)) [] of
        Inl e \<Rightarrow> Inl e
      | Inr r \<Rightarrow> Inr (if use_uracil then str_replace CHR ''t'' CHR ''u'' r else r))"

definition anticodons :: "string \<Rightarrow> py_error + string list" where
  "anticodons codon =
     (case rev_compl (take 2 codon) False of
        Inl e \<Rightarrow> Inl e
      | Inr rc \<Rightarrow> Inr (map (\<lambda>b. b # rc) bases))"

definition codons_to_remove :: "string list" where
  "codons_to_remove = [''atg'', ''taa'', ''tga'', ''tag'']"

text \<open>\<open>range(0, stop, 3)\<close>.\<close>

definition range3 :: "nat \<Rightarrow> nat list" where
  "range3 stop = map (\<lambda>j. 3 * j) [0..<(stop + 2) div 3]"

text \<open>The length warning of \<open>get_sequence_codons\<close> is not fatal and changes no result;
  \<open>length_warning\<close> says when it is issued.\<close>

definition length_warning :: "string \<Rightarrow> bool" where
  "length_warning seq = (length seq mod 3 \<noteq> 0)"

definition get_sequence_codons :: "string \<Rightarrow> string list" where
  "get_sequence_codons seq0 =
     (let seq = str_replace CHR ''u'' CHR ''t'' (str_lower seq0);
          codons_list = map (\<lambda>i. take 3 (drop i seq)) (range3 ((length seq div 3) * 3))
      in filter (\<lambda>codon. codon \<notin> set codons_to_remove) codons_list)"

text \<open>\<open>load_s_dict\<close> after the file has been split into rows \<open>(pairing, s)\<close>: the rows
  are stored under their normalised key, then every pairing of a codon base with an
  anticodon base or modified base that is still missing gets the value 1.\<close>

definition s_keys :: "string list" where
  "s_keys = concat (map (\<lambda>codon_base. map (\<lambda>anticodon_base. [codon_base, anticodon_base])
                                          (bases @ ''il'')) bases)"

definition load_s_dict :: "(string \<times> real) list \<Rightarrow> (string \<rightharpoonup> real)" where
  "load_s_dict rows =
     (let s_dict = fold (\<lambda>(pairing, s) d. d(normalize_key pairing \<mapsto> s)) rows Map.empty
      in fold (\<lambda>k d. if d k = None then d(k \<mapsto> 1) else d) s_keys s_dict)"

section \<open>tai.py\<close>

text \<open>The calculator object: both attributes are \<open>None\<close> until \<open>update\<close> has set them.
  A method that mutates the object returns the exception it raised, if any, and the
  object as it is when the method returns or raises. The module's affinity table
  \<open>bc.s_dict\<close> is read from a file when the module is loaded; here it is the first
  argument \<open>s_dict\<close> of the methods that use it.

  A dictionary passed to \<open>TAI\<close>, \<open>update\<close> or \<open>add_tRNA_genes\<close> is the list of its items
  in insertion order. The methods are modelled first on a dictionary with strings as keys
  and numbers as values, where the \<open>isinstance\<close> checks of the source pass, and then
  (\<open>update_call\<close>, \<open>TAI_call\<close>, \<open>add_tRNA_genes_call\<close>) on an argument of any type. The
  default \<open>expr_level=1\<close> of \<open>add_tRNA_genes\<close> is passed explicitly.\<close>

record tai =
  tGCN_dict :: "(string \<rightharpoonup> real) option"
  w_dict :: "(string \<times> real) list option"

definition set_tGCN_dict :: "(string \<times> real) list \<Rightarrow> tai \<Rightarrow> tai" where
  "set_tGCN_dict tRNA_counts_dict self =
     (let d0 = fold (\<lambda>(k, v) d. d(normalize_key k \<mapsto> v)) tRNA_counts_dict Map.empty;
          d1 = fold (\<lambda>triplet d. if d triplet = None then d(triplet \<mapsto> 0) else d) codons d0
      in self\<lparr>tGCN_dict := Some d1\<rparr>)"

definition get_s :: "(string \<rightharpoonup> real) \<Rightarrow> string \<Rightarrow> string \<Rightarrow> py_error + real" where
  "get_s s_dict codon anticodon =
     (case anticodons codon of
        Inl e \<Rightarrow> Inl e
      | Inr acs \<Rightarrow>
          if anticodon \<notin> set acs then Inl ValueError
          else if length codon \<le> 2 \<or> anticodon = [] then Inl IndexError
          else
            let third_base = codon ! 2;
                recognizer = anticodon ! 0;
                recognizer = (if recognizer = CHR ''a'' then CHR ''i'' else recognizer);
                recognizer = (if (codon, anticodon) = (''ata'', ''cat'') then CHR ''l''
                              else recognizer)
            in (case s_dict [third_base, recognizer] of
                  None \<Rightarrow> Inl KeyError
                | Some v \<Rightarrow> Inr v))"

text \<open>The loop of \<open>get_W\<close>: \<open>get_s\<close> is evaluated before \<open>self.tGCN_dict[anticodon]\<close>.\<close>

fun W_loop ::
  "(string \<rightharpoonup> real) \<Rightarrow> tai \<Rightarrow> string \<Rightarrow> string list \<Rightarrow> real \<Rightarrow> py_error + real" where
  "W_loop s_dict self codon [] W = Inr W"
| "W_loop s_dict self codon (anticodon # rest) W =
     (case get_s s_dict codon anticodon of
        Inl e \<Rightarrow> Inl e
      | Inr s \<Rightarrow>
          (case tGCN_dict self of
             None \<Rightarrow> Inl TypeError
           | Some d \<Rightarrow>
               (case d anticodon of
                  None \<Rightarrow> Inl KeyError
                | Some n \<Rightarrow> W_loop s_dict self codon rest (W + (1 - s) * n))))"

definition get_W :: "(string \<rightharpoonup> real) \<Rightarrow> tai \<Rightarrow> string \<Rightarrow> py_error + real option" where
  "get_W s_dict self codon =
     (if codon \<in> set [''atg'', ''tga'', ''taa'', ''tag''] then Inr None
      else if codon = ''ata'' then
        (case get_s s_dict codon ''cat'' of
           Inl e \<Rightarrow> Inl e
         | Inr s \<Rightarrow> Inr (Some ((1 - s) * 1)))
      else
        (case anticodons codon of
           Inl e \<Rightarrow> Inl e
         | Inr acs \<Rightarrow>
             (case W_loop s_dict self codon acs 0 of
                Inl e \<Rightarrow> Inl e
              | Inr W \<Rightarrow> Inr (Some W))))"

text \<open>The first loop of \<open>set_w_dict\<close>. A \<open>None\<close> from \<open>get_W\<close> would be stored and make
  the later \<open>max\<close> or division raise \<open>TypeError\<close>; the guard of the loop excludes the
  codons for which \<open>get_W\<close> returns \<open>None\<close>.\<close>

fun W_dict_loop ::
  "(string \<rightharpoonup> real) \<Rightarrow> tai \<Rightarrow> string list \<Rightarrow> (string \<times> real) list
     \<Rightarrow> py_error + (string \<times> real) list" where
  "W_dict_loop s_dict self [] W_dict = Inr W_dict"
| "W_dict_loop s_dict self (codon # rest) W_dict =
     (if codon \<notin> set [''atg'', ''taa'', ''tag'', ''tga''] then
        (case get_W s_dict self codon of
           Inl e \<Rightarrow> Inl e
         | Inr None \<Rightarrow> Inl TypeError
         | Inr (Some W) \<Rightarrow> W_dict_loop s_dict self rest (W_dict @ [(codon, W)]))
      else W_dict_loop s_dict self rest W_dict)"

text \<open>\<open>max\<close> of a list raises \<open>ValueError\<close> when the list is empty.\<close>

fun py_max :: "real list \<Rightarrow> py_error + real" where
  "py_max [] = Inl ValueError"
| "py_max (x # xs) = Inr (fold (\<lambda>y m. if y > m then y else m) xs x)"

definition set_w_dict :: "(string \<rightharpoonup> real) \<Rightarrow> tai \<Rightarrow> py_error option \<times> tai" where
  "set_w_dict s_dict self =
     (case W_dict_loop s_dict self codons [] of
        Inl e \<Rightarrow> (Some e, self)
      | Inr W_dict \<Rightarrow>
          (case py_max (map snd W_dict) of
             Inl e \<Rightarrow> (Some e, self)
           | Inr max_W \<Rightarrow>
               if max_W = 0 then (Some ZeroDivisionError, self)
               else
                 let w_dict0 = map (\<lambda>(k, W). (k, W / max_W)) W_dict
                 in if length (filter (\<lambda>w. w = 0) (map snd w_dict0)) > 0 then
                      (case geo_mean (filter (\<lambda>w. w \<noteq> 0) (map snd w_dict0)) of
                         Inl e \<Rightarrow> (Some e, self)
                       | Inr gm_non_zeros \<Rightarrow>
                           (None, self\<lparr>w_dict := Some (map (\<lambda>(k, w).
                              (k, if w = 0 then gm_non_zeros else w)) w_dict0)\<rparr>))
                    else (None, self\<lparr>w_dict := Some w_dict0\<rparr>)))"

text \<open>The list comprehension of \<open>get_tai\<close> that reads \<open>self.w_dict[codon]\<close>.\<close>

fun ws_loop :: "tai \<Rightarrow> string list \<Rightarrow> py_error + real list" where
  "ws_loop self [] = Inr []"
| "ws_loop self (codon # rest) =
     (case w_dict self of
        None \<Rightarrow> Inl TypeError
      | Some d \<Rightarrow>
          (case map_of d codon of
             None \<Rightarrow> Inl KeyError
           | Some w \<Rightarrow>
               (case ws_loop self rest of
                  Inl e \<Rightarrow> Inl e
                | Inr ws \<Rightarrow> Inr (w # ws))))"

definition get_tai :: "tai \<Rightarrow> string \<Rightarrow> py_error + real" where
  "get_tai self seq =
     (let seq_codons = map str_lower (get_sequence_codons seq)
      in case ws_loop self seq_codons of
           Inl e \<Rightarrow> Inl e
         | Inr ws \<Rightarrow> geo_mean ws)"

definition update ::
  "(string \<rightharpoonup> real) \<Rightarrow> (string \<times> real) list \<Rightarrow> tai \<Rightarrow> py_error option \<times> tai" where
  "update s_dict tRNA_counts_dict self =
     set_w_dict s_dict (set_tGCN_dict tRNA_counts_dict self)"

text \<open>\<open>__init__\<close>: an exception leaves the caller without an object.\<close>

definition TAI :: "(string \<rightharpoonup> real) \<Rightarrow> (string \<times> real) list \<Rightarrow> py_error + tai" where
  "TAI s_dict tRNA_counts_dict =
     (case update s_dict tRNA_counts_dict \<lparr>tGCN_dict = None, w_dict = None\<rparr> of
        (Some e, self) \<Rightarrow> Inl e
      | (None, self) \<Rightarrow> Inr self)"

text \<open>The loop of \<open>add_tRNA_genes\<close>: the augmented assignment reads the entry first.\<close>

fun add_tRNA_genes ::
  "(string \<times> real) list \<Rightarrow> real \<Rightarrow> tai \<Rightarrow> py_error option \<times> tai" where
  "add_tRNA_genes [] expr_level self = (None, self)"
| "add_tRNA_genes ((k, n) # rest) expr_level self =
     (case tGCN_dict self of
        None \<Rightarrow> (Some TypeError, self)
      | Some d \<Rightarrow>
          (case d (normalize_key k) of
             None \<Rightarrow> (Some KeyError, self)
           | Some old \<Rightarrow>
               add_tRNA_genes rest expr_level
                 (self\<lparr>tGCN_dict := Some (d(normalize_key k \<mapsto> old + n * expr_level))\<rparr>)))"

text \<open>The methods as they are called, with an argument of any type. An argument is a
  dictionary or some other object, and a key of a dictionary is a string or some other
  object, such as a number. \<open>set_tGCN_dict\<close> and \<open>add_tRNA_genes\<close> raise \<open>ValueError\<close> for an
  argument that is no dictionary, and \<open>k.lower()\<close> raises \<open>AttributeError\<close> for a key
  that is no string. In \<open>set_tGCN_dict\<close> both happen before \<open>self.tGCN_dict\<close> is assigned;
  in \<open>add_tRNA_genes\<close> the key is looked at inside the loop, after the entries of the keys
  before it have been changed.\<close>

datatype py_key = Str string | NotStr

datatype py_arg = Dict "(py_key \<times> real) list" | NotDict

fun str_keys :: "(py_key \<times> real) list \<Rightarrow> py_error + (string \<times> real) list" where
  "str_keys [] = Inr []"
| "str_keys ((NotStr, v) # rest) = Inl AttributeError"
| "str_keys ((Str k, v) # rest) =
     (case str_keys rest of
        Inl e \<Rightarrow> Inl e
      | Inr counts \<Rightarrow> Inr ((k, v) # counts))"

definition set_tGCN_dict_call :: "py_arg \<Rightarrow> tai \<Rightarrow> py_error option \<times> tai" where
  "set_tGCN_dict_call tRNA_counts_dict self =
     (case tRNA_counts_dict of
        NotDict \<Rightarrow> (Some ValueError, self)
      | Dict items \<Rightarrow>
          (case str_keys items of
             Inl e \<Rightarrow> (Some e, self)
           | Inr counts \<Rightarrow> (None, set_tGCN_dict counts self)))"

definition update_call ::
  "(string \<rightharpoonup> real) \<Rightarrow> py_arg \<Rightarrow> tai \<Rightarrow> py_error option \<times> tai" where
  "update_call s_dict tRNA_counts_dict self =
     (case set_tGCN_dict_call tRNA_counts_dict self of
        (Some e, self') \<Rightarrow> (Some e, self')
      | (None, self') \<Rightarrow> set_w_dict s_dict self')"

definition TAI_call :: "(string \<rightharpoonup> real) \<Rightarrow> py_arg \<Rightarrow> py_error + tai" where
  "TAI_call s_dict tRNA_counts_dict =
     (case update_call s_dict tRNA_counts_dict \<lparr>tGCN_dict = None, w_dict = None\<rparr> of
        (Some e, self) \<Rightarrow> Inl e
      | (None, self) \<Rightarrow> Inr self)"

fun add_tRNA_genes_loop ::
  "(py_key \<times> real) list \<Rightarrow> real \<Rightarrow> tai \<Rightarrow> py_error option \<times> tai" where
  "add_tRNA_genes_loop [] expr_level self = (None, self)"
| "add_tRNA_genes_loop ((NotStr, n) # rest) expr_level self = (Some AttributeError, self)"
| "add_tRNA_genes_loop ((Str k, n) # rest) expr_level self =
     (case tGCN_dict self of
        None \<Rightarrow> (Some TypeError, self)
      | Some d \<Rightarrow>
          (case d (normalize_key k) of
             None \<Rightarrow> (Some KeyError, self)
           | Some old \<Rightarrow>
               add_tRNA_genes_loop rest expr_level
                 (self\<lparr>tGCN_dict := Some (d(normalize_key k \<mapsto> old + n * expr_level))\<rparr>)))"

definition add_tRNA_genes_call :: "py_arg \<Rightarrow> real \<Rightarrow> tai \<Rightarrow> py_error option \<times> tai" where
  "add_tRNA_genes_call tRNA_counts_dict expr_level self =
     (case tRNA_counts_dict of
        NotDict \<Rightarrow> (Some ValueError, self)
      | Dict items \<Rightarrow> add_tRNA_genes_loop items expr_level self)"

text \<open>\<open>get_tai\<close> as a method call: its body assigns to no attribute of \<open>self\<close>.\<close>

definition get_tai_call :: "tai \<Rightarrow> string \<Rightarrow> (py_error + real) \<times> tai" where
  "get_tai_call self seq = (get_tai self seq, self)"

section \<open>The product in binary64 arithmetic\<close>

text \<open>A Python \<open>float\<close> is an IEEE 754 binary64 number, and \<open>x*y\<close> on floats is the exact
  product rounded to the nearest binary64 number, ties to the even significand. A binary64
  number is an integer multiple of \<open>2 ^ (e - 52)\<close> for its exponent \<open>e\<close>, which is at least
  -1022: below \<open>2 ^ -1022\<close> the numbers are the multiples of \<open>2 ^ -1074\<close>.\<close>

definition round_half_even :: "real \<Rightarrow> int" where
  "round_half_even r =
     (let f = \<lfloor>r\<rfloor>; d = r - of_int f
      in if d < 1 / 2 then f else if 1 / 2 < d then f + 1 else if even f then f else f + 1)"

definition float_round :: "real \<Rightarrow> real" where
  "float_round x =
     (if x = 0 then 0
      else let e = max \<lfloor>log 2 \<bar>x\<bar>\<rfloor> (- 1022);
               u = 2 powr (of_int e - 52)
           in of_int (round_half_even (x / u)) * u)"

definition float_mult :: "real \<Rightarrow> real \<Rightarrow> py_error + real" where
  "float_mult x y =
     (let r = float_round (x * y)
      in if 2 ^ 1024 \<le> \<bar>r\<bar> then Inl FloatInfinity else Inr r)"

text \<open>\<open>reduce(lambda x,y: x*y, xs)\<close> on floats: every intermediate product is rounded.\<close>

fun product_float_loop :: "real \<Rightarrow> real list \<Rightarrow> py_error + real" where
  "product_float_loop acc [] = Inr acc"
| "product_float_loop acc (y # ys) =
     (case float_mult acc y of
        Inl e \<Rightarrow> Inl e
      | Inr r \<Rightarrow> product_float_loop r ys)"

fun product_float :: "real list \<Rightarrow> py_error + real" where
  "product_float [] = Inl TypeError"
| "product_float (x # xs) = product_float_loop x xs"

text \<open>\<open>geo_mean\<close> and \<open>get_tai\<close> over this product. The final power is left exact: for the
  base \<open>0.0\<close> and a positive exponent Python returns exactly \<open>0.0\<close>.\<close>

definition geo_mean_float :: "real list \<Rightarrow> py_error + real" where
  "geo_mean_float xs =
     (case product_float xs of
        Inl e \<Rightarrow> Inl e
      | Inr p \<Rightarrow> pow_inv p (length xs))"

definition get_tai_float :: "tai \<Rightarrow> string \<Rightarrow> py_error + real" where
  "get_tai_float self seq =
     (let seq_codons = map str_lower (get_sequence_codons seq)
      in case ws_loop self seq_codons of
           Inl e \<Rightarrow> Inl e
         | Inr ws \<Rightarrow> geo_mean_float ws)"

section \<open>Notions used in the statements\<close>

text \<open>The keys of \<open>W_dict\<close> and \<open>w_dict\<close>: the codons that pass the guard of the loop in
  \<open>set_w_dict\<close>, in the order of \<open>codons\<close>.\<close>

definition weighted_codons :: "string list" where
  "weighted_codons = filter (\<lambda>codon. codon \<notin> set [''atg'', ''taa'', ''tag'', ''tga'']) codons"

text \<open>The geometric mean as the specification words it: the n-th root of the product.\<close>

definition geometric_mean :: "real list \<Rightarrow> real" where
  "geometric_mean xs = root (length xs) (prod_list xs)"

text \<open>What \<open>add_tRNA_genes\<close> adds to the entry of one anticodon: the scaled counts of all
  keys of the argument that normalise to it.\<close>

definition added :: "(string \<times> real) list \<Rightarrow> real \<Rightarrow> string \<Rightarrow> real" where
  "added extra e a = sum_list (map (\<lambda>(k, n). if normalize_key k = a then n * e else 0) extra)"

text \<open>A calculator to evaluate on: an affinity file with the two rows \<open>al,0\<close> and
  \<open>TI,0\<close>, and the object that \<open>TAI\<close> builds over it from the empty dictionary.\<close>

definition ex_s_dict :: "string \<rightharpoonup> real" where
  "ex_s_dict = load_s_dict [(''al'', 0), (''TI'', 0)]"

definition ex_tai :: tai where
  "ex_tai = \<lparr>tGCN_dict = Some (\<lambda>k. if k \<in> set codons then Some 0 else None),
             w_dict = Some (map (\<lambda>c. (c, 1)) weighted_codons)\<rparr>"

text \<open>The codon list as the specification words it: the normalised sequence cut into
  3-base windows from position 0, a trailing partial window dropped, and the start codon
  and the three stop codons filtered out.\<close>

fun windows3 :: "'a list \<Rightarrow> 'a list list" where
  "windows3 (a # b # c # rest) = [a, b, c] # windows3 rest"
| "windows3 _ = []"

definition spec_codons :: "string \<Rightarrow> string list" where
  "spec_codons seq =
     filter (\<lambda>codon. codon \<notin> {''atg'', ''taa'', ''tga'', ''tag''}) (windows3 (normalize_key seq))"

text \<open>A second affinity file, with the single row \<open>ti,0\<close>: the pairing \<open>al\<close> of the
  codon \<open>ata\<close> has the default value 1 there.\<close>

definition ex_s_dict2 :: "string \<rightharpoonup> real" where
  "ex_s_dict2 = load_s_dict [(''ti'', 0)]"

text \<open>The calculator \<open>ex_tai\<close> after \<open>add_tRNA_genes({'aaa': 2})\<close>. It is also the
  calculator that \<open>TAI({'aaa': 2})\<close> builds over the second affinity file.\<close>

definition ex_tai2 :: tai where
  "ex_tai2 = ex_tai\<lparr>tGCN_dict :=
     Some (\<lambda>k. if k = ''aaa'' then Some 2 else if k \<in> set codons then Some 0 else None)\<rparr>"

section \<open>Auxiliary facts\<close>

subsection \<open>Dictionaries built by the loops\<close>

lemma fold_default:
  "fold (\<lambda>k d. if d k = None then d(k \<mapsto> v) else d) ks d0 =
     (\<lambda>k. case d0 k of Some x \<Rightarrow> Some x | None \<Rightarrow> if k \<in> set ks then Some v else None)"
proof (induction ks arbitrary: d0)
  case Nil
  show ?case by (auto split: option.splits)
next
  case (Cons a ks)
  show ?case by (auto simp: Cons.IH fun_eq_iff split: option.splits)
qed

lemma fold_assign:
  "fold (\<lambda>(k, v) d. d(f k \<mapsto> v)) rows d0 = d0 ++ map_of (rev (map (\<lambda>(k, v). (f k, v)) rows))"
proof (induction rows arbitrary: d0)
  case Nil
  show ?case by simp
next
  case (Cons r rows)
  obtain k v where r: "r = (k, v)" by (cases r)
  have "fold (\<lambda>(k, v) d. d(f k \<mapsto> v)) (r # rows) d0 =
        fold (\<lambda>(k, v) d. d(f k \<mapsto> v)) rows (d0(f k \<mapsto> v))"
    by (simp only: r fold_simps comp_apply case_prod_conv)
  also have "\<dots> = d0(f k \<mapsto> v) ++ map_of (rev (map (\<lambda>(k, v). (f k, v)) rows))"
    by (rule Cons.IH)
  also have "\<dots> = d0 ++ map_of (rev (map (\<lambda>(k, v). (f k, v)) (r # rows)))"
    by (auto simp: r fun_eq_iff map_add_def split: option.splits)
  finally show ?case .
qed

lemma set_codons: "set codons = {[x, y, z] | x y z. x \<in> set bases \<and> y \<in> set bases \<and> z \<in> set bases}"
  by (auto simp: codons_def)

lemma length_codons: "length codons = 64"
  by (simp add: codons_def bases_def)

lemma distinct_codons: "distinct codons"
  by (simp add: codons_def bases_def)

lemma tGCN_set_tGCN_dict:
  "tGCN_dict (set_tGCN_dict counts self) =
     Some (\<lambda>k. case map_of (rev (map (\<lambda>(k, v). (normalize_key k, v)) counts)) k of
                 Some v \<Rightarrow> Some v
               | None \<Rightarrow> if k \<in> set codons then Some 0 else None)"
  by (simp add: set_tGCN_dict_def fold_default fold_assign map_add_def)

lemma w_set_tGCN_dict: "w_dict (set_tGCN_dict counts self) = w_dict self"
  by (simp add: set_tGCN_dict_def Let_def)

lemma tGCN_set_w_dict: "tGCN_dict (snd (set_w_dict s self)) = tGCN_dict self"
  by (simp add: set_w_dict_def Let_def split: sum.splits)

lemma w_set_w_dict_fail: "fst (set_w_dict s self) = Some e \<Longrightarrow> snd (set_w_dict s self) = self"
  by (auto simp: set_w_dict_def Let_def split: sum.splits if_splits)

lemma w_add_tRNA_genes: "w_dict (snd (add_tRNA_genes extra e self)) = w_dict self"
  by (induction extra e self rule: add_tRNA_genes.induct) (auto split: option.splits)

lemma add_tRNA_genes_ok:
  "tGCN_dict self = Some d \<Longrightarrow> \<forall>(k, n) \<in> set extra. d (normalize_key k) \<noteq> None \<Longrightarrow>
   add_tRNA_genes extra e self =
     (None, self\<lparr>tGCN_dict := Some (\<lambda>a. map_option (\<lambda>old. old + added extra e a) (d a))\<rparr>)"
proof (induction extra arbitrary: self d)
  case Nil
  have "(\<lambda>a. map_option (\<lambda>old. old + added [] e a) (d a)) = d"
    by (auto simp: added_def fun_eq_iff option.map_ident)
  with Nil show ?case by simp
next
  case (Cons r rest)
  obtain k n where r: "r = (k, n)" by (cases r)
  from Cons.prems(2) obtain old where old: "d (normalize_key k) = Some old"
    by (auto simp: r)
  let ?d = "d(normalize_key k \<mapsto> old + n * e)"
  let ?self = "self\<lparr>tGCN_dict := Some ?d\<rparr>"
  have "tGCN_dict ?self = Some ?d" by simp
  moreover have "\<forall>(k, n) \<in> set rest. ?d (normalize_key k) \<noteq> None"
    using Cons.prems(2) by auto
  ultimately have "add_tRNA_genes rest e ?self =
     (None, ?self\<lparr>tGCN_dict := Some (\<lambda>a. map_option (\<lambda>old. old + added rest e a) (?d a))\<rparr>)"
    by (rule Cons.IH)
  moreover have "(\<lambda>a. map_option (\<lambda>old. old + added rest e a) (?d a)) =
      (\<lambda>a. map_option (\<lambda>old. old + added (r # rest) e a) (d a))"
    by (auto simp: fun_eq_iff added_def old r)
  ultimately show ?case using Cons.prems(1) old by (simp add: r)
qed

lemma add_tRNA_genes_KeyError:
  "tGCN_dict self = Some d \<Longrightarrow> \<exists>(k, n) \<in> set extra. normalize_key k \<notin> dom d \<Longrightarrow>
   fst (add_tRNA_genes extra e self) = Some KeyError"
proof (induction extra arbitrary: self d)
  case Nil
  then show ?case by simp
next
  case (Cons r rest)
  obtain k n where r: "r = (k, n)" by (cases r)
  show ?case
  proof (cases "d (normalize_key k)")
    case None
    with Cons.prems(1) show ?thesis by (simp add: r)
  next
    case (Some old)
    let ?d = "d(normalize_key k \<mapsto> old + n * e)"
    let ?self = "self\<lparr>tGCN_dict := Some ?d\<rparr>"
    have dom: "dom ?d = dom d" using Some by auto
    have "tGCN_dict ?self = Some ?d" by simp
    moreover have "\<exists>(k, n) \<in> set rest. normalize_key k \<notin> dom ?d"
      using Cons.prems(2) Some unfolding dom by (auto simp: r)
    ultimately have "fst (add_tRNA_genes rest e ?self) = Some KeyError"
      by (rule Cons.IH)
    then show ?thesis using Cons.prems(1) Some by (simp add: r)
  qed
qed

subsection \<open>Codons, anticodons and affinities\<close>

lemma bases_cases: "x \<in> set bases \<longleftrightarrow> x = CHR ''t'' \<or> x = CHR ''c'' \<or> x = CHR ''a'' \<or> x = CHR ''g''"
  by (auto simp: bases_def)

lemma lower_char_base: "x \<in> set bases \<Longrightarrow> lower_char x = x"
  unfolding bases_cases by (elim disjE) (simp_all add: lower_char_def)

lemma complement_base: "x \<in> set bases \<Longrightarrow> \<exists>y. complement x = Some y \<and> y \<in> set bases"
  unfolding bases_cases by (elim disjE) (simp_all add: complement_def bases_def)

lemma anticodons_codon:
  assumes "x \<in> set bases" "y \<in> set bases"
  shows "anticodons (x # y # zs) =
           Inr (map (\<lambda>b. [b, the (complement y), the (complement x)]) bases)"
proof -
  from assms obtain cx cy where c: "complement x = Some cx" "complement y = Some cy"
    using complement_base by blast
  show ?thesis
    using assms by (simp add: anticodons_def rev_compl_def str_lower_def lower_char_base c)
qed

lemma anticodon_in_codons:
  assumes "x \<in> set bases" "y \<in> set bases" "b \<in> set bases"
  shows "[b, the (complement y), the (complement x)] \<in> set codons"
  using assms complement_base[of x] complement_base[of y] by (auto simp: set_codons)

lemma s_key_mem:
  "z \<in> set bases \<Longrightarrow> r \<in> set bases \<or> r = CHR ''i'' \<or> r = CHR ''l'' \<Longrightarrow> [z, r] \<in> set s_keys"
  by (auto simp: s_keys_def)

lemma get_s_codon:
  assumes s: "\<forall>k\<in>set s_keys. s_dict k \<noteq> None"
    and xyz: "x \<in> set bases" "y \<in> set bases" "z \<in> set bases"
    and b: "b \<in> set bases"
  shows "\<exists>v. get_s s_dict [x, y, z] [b, the (complement y), the (complement x)] = Inr v \<and>
             (\<exists>k\<in>set s_keys. s_dict k = Some v)"
proof -
  let ?a = "[b, the (complement y), the (complement x)]"
  let ?r = "if ([x, y, z], ?a) = (''ata'', ''cat'') then CHR ''l''
            else if b = CHR ''a'' then CHR ''i'' else b"
  have "?r \<in> set bases \<or> ?r = CHR ''i'' \<or> ?r = CHR ''l''" using b by auto
  with xyz(3) have key: "[z, ?r] \<in> set s_keys" by (rule s_key_mem)
  with s obtain v where v: "s_dict [z, ?r] = Some v" by blast
  have mem: "?a \<in> set (map (\<lambda>b. [b, the (complement y), the (complement x)]) bases)"
    using b by simp
  have "get_s s_dict [x, y, z] ?a = Inr v"
    unfolding get_s_def anticodons_codon[OF xyz(1,2)] using mem v
    by (simp add: Let_def split: if_splits)
  with key v show ?thesis by blast
qed

lemma W_loop_sum:
  "tGCN_dict self = Some d \<Longrightarrow>
   \<forall>a\<in>set acs. get_s s_dict codon a = Inr (sv a) \<and> d a = Some (n a) \<Longrightarrow>
   W_loop s_dict self codon acs W = Inr (W + sum_list (map (\<lambda>a. (1 - sv a) * n a) acs))"
  by (induction acs arbitrary: W) (auto simp: algebra_simps)

lemma anticodons_ata: "anticodons ''ata'' = Inr [''tat'', ''cat'', ''aat'', ''gat'']"
  by (simp add: anticodons_def rev_compl_def str_lower_def lower_char_def complement_def bases_def)

lemma get_s_ata:
  assumes "\<forall>k\<in>set s_keys. s_dict k \<noteq> None"
  shows "\<exists>v. s_dict ''al'' = Some v \<and> get_s s_dict ''ata'' ''cat'' = Inr v"
proof -
  have "''al'' \<in> set s_keys" by (simp add: s_keys_def bases_def)
  with assms obtain v where "s_dict ''al'' = Some v" by blast
  then show ?thesis by (simp add: get_s_def anticodons_ata)
qed

lemma get_W_excluded:
  "codon \<in> set [''atg'', ''taa'', ''tga'', ''tag''] \<Longrightarrow> get_W s_dict self codon = Inr None"
  by (auto simp: get_W_def)

lemma get_W_ata:
  "get_s s_dict ''ata'' ''cat'' = Inr v \<Longrightarrow> get_W s_dict self ''ata'' = Inr (Some ((1 - v) * 1))"
  by (simp add: get_W_def)

lemma get_W_other:
  assumes s: "\<forall>k\<in>set s_keys. s_dict k \<noteq> None"
    and d: "tGCN_dict self = Some d" "\<forall>a\<in>set codons. d a \<noteq> None"
    and codon: "codon \<in> set codons" "codon \<notin> set [''atg'', ''tga'', ''taa'', ''tag'']"
      "codon \<noteq> ''ata''"
  shows "\<exists>acs sv n. anticodons codon = Inr acs \<and> length acs = 4 \<and> set acs \<subseteq> set codons \<and>
           (\<forall>a\<in>set acs. get_s s_dict codon a = Inr (sv a) \<and> d a = Some (n a) \<and>
                          (\<exists>k\<in>set s_keys. s_dict k = Some (sv a))) \<and>
           get_W s_dict self codon = Inr (Some (sum_list (map (\<lambda>a. (1 - sv a) * n a) acs)))"
proof -
  from codon(1) obtain x y z where xyz: "codon = [x, y, z]"
      "x \<in> set bases" "y \<in> set bases" "z \<in> set bases"
    by (auto simp: set_codons)
  define acs where "acs = map (\<lambda>b. [b, the (complement y), the (complement x)]) bases"
  define sv where "sv = (\<lambda>a. projr (get_s s_dict codon a))"
  define n where "n = (\<lambda>a. the (d a))"
  have acs: "anticodons codon = Inr acs"
    unfolding xyz(1) acs_def by (rule anticodons_codon[OF xyz(2,3)])
  have len: "length acs = 4" by (simp add: acs_def bases_def)
  have sub: "set acs \<subseteq> set codons"
    using anticodon_in_codons[OF xyz(2,3)] by (auto simp: acs_def)
  have each: "\<forall>a\<in>set acs. get_s s_dict codon a = Inr (sv a) \<and> d a = Some (n a) \<and>
                (\<exists>k\<in>set s_keys. s_dict k = Some (sv a))"
  proof
    fix a assume "a \<in> set acs"
    then obtain b where b: "b \<in> set bases" "a = [b, the (complement y), the (complement x)]"
      by (auto simp: acs_def)
    from get_s_codon[OF s xyz(2,3,4) b(1)]
    have "get_s s_dict codon a = Inr (sv a) \<and> (\<exists>k\<in>set s_keys. s_dict k = Some (sv a))"
      by (auto simp: sv_def xyz(1) b(2))
    moreover from anticodon_in_codons[OF xyz(2,3) b(1)] d(2) have "d a = Some (n a)"
      by (auto simp: n_def b(2))
    ultimately show "get_s s_dict codon a = Inr (sv a) \<and> d a = Some (n a) \<and>
                (\<exists>k\<in>set s_keys. s_dict k = Some (sv a))" by blast
  qed
  then have each': "\<forall>a\<in>set acs. get_s s_dict codon a = Inr (sv a) \<and> d a = Some (n a)"
    by blast
  have "get_W s_dict self codon = Inr (Some (sum_list (map (\<lambda>a. (1 - sv a) * n a) acs)))"
    using codon(2,3) by (simp add: get_W_def acs W_loop_sum[OF d(1) each'])
  with acs len sub each show ?thesis by blast
qed

subsection \<open>The weight tables\<close>

lemma W_dict_loop_ok:
  "\<forall>c\<in>set cs. c \<notin> set [''atg'', ''taa'', ''tag'', ''tga''] \<longrightarrow> get_W s_dict self c = Inr (Some (W c)) \<Longrightarrow>
   W_dict_loop s_dict self cs acc =
     Inr (acc @ map (\<lambda>c. (c, W c)) (filter (\<lambda>c. c \<notin> set [''atg'', ''taa'', ''tag'', ''tga'']) cs))"
proof (induction cs arbitrary: acc)
  case Nil
  show ?case by simp
next
  case (Cons c cs)
  have IH: "\<And>acc. W_dict_loop s_dict self cs acc =
     Inr (acc @ map (\<lambda>c. (c, W c)) (filter (\<lambda>c. c \<notin> set [''atg'', ''taa'', ''tag'', ''tga'']) cs))"
    using Cons.prems by (intro Cons.IH) simp
  show ?case
  proof (cases "c \<notin> set [''atg'', ''taa'', ''tag'', ''tga'']")
    case True
    with Cons.prems have "get_W s_dict self c = Inr (Some (W c))" by simp
    with True show ?thesis by (simp add: IH)
  next
    case False
    then show ?thesis using IH by auto
  qed
qed

lemma py_max_Max: "xs \<noteq> [] \<Longrightarrow> py_max xs = Inr (Max (set xs))"
proof (cases xs)
  case Nil
  then show "xs \<noteq> [] \<Longrightarrow> ?thesis" by simp
next
  case (Cons x ys)
  have "(\<lambda>y m. if y > m then y else m) = (max :: real \<Rightarrow> real \<Rightarrow> real)"
    by (auto simp: fun_eq_iff max_def)
  then show ?thesis using Max.set_eq_fold[of x ys] by (simp add: Cons)
qed

lemma fold_mult: "fold (\<lambda>y acc. acc * y) xs (x :: real) = x * prod_list xs"
  by (induction xs arbitrary: x) (simp_all add: mult.assoc)

lemma product_prod_list: "xs \<noteq> [] \<Longrightarrow> product xs = Inr (prod_list xs)"
  by (cases xs) (simp_all add: fold_mult)

lemma geo_mean_nonneg:
  assumes "xs \<noteq> []" "0 \<le> prod_list xs"
  shows "geo_mean xs = Inr (geometric_mean xs)"
  using assms
  by (simp add: geo_mean_def product_prod_list pow_inv_def geometric_mean_def root_powr_inverse)

lemma geo_mean_Inr:
  assumes "geo_mean xs = Inr r"
  shows "xs \<noteq> [] \<and> r = geometric_mean xs"
proof -
  from assms have ne: "xs \<noteq> []" by (auto simp: geo_mean_def)
  show ?thesis
  proof (cases "0 \<le> prod_list xs")
    case True
    with ne assms show ?thesis by (simp add: geo_mean_nonneg)
  next
    case False
    with ne assms have "length xs = 1" "r = prod_list xs"
      by (auto simp: geo_mean_def product_prod_list pow_inv_def split: if_splits)
    with ne show ?thesis by (simp add: geometric_mean_def)
  qed
qed

lemma geo_mean_Nil: "geo_mean [] = Inl TypeError"
  by (simp add: geo_mean_def)

lemma set_w_dict_ok:
  fixes W :: "string \<Rightarrow> real"
  defines "M \<equiv> Max (W ` set weighted_codons)"
  defines "G \<equiv> geometric_mean (filter (\<lambda>w. 0 < w) (map (\<lambda>c. W c / M) weighted_codons))"
  assumes W: "\<forall>c\<in>set weighted_codons. get_W s_dict self c = Inr (Some (W c))"
    and nn: "\<forall>c\<in>set weighted_codons. 0 \<le> W c"
    and nz: "\<exists>c\<in>set weighted_codons. W c \<noteq> 0"
  shows "set_w_dict s_dict self =
     (None, self\<lparr>w_dict := Some (map (\<lambda>c. (c, if W c / M = 0 then G else W c / M))
                                      weighted_codons)\<rparr>)"
proof -
  let ?wc = "weighted_codons"
  let ?vs = "map (\<lambda>c. W c / M) ?wc"
  have loop: "W_dict_loop s_dict self codons [] = Inr (map (\<lambda>c. (c, W c)) ?wc)"
    using W_dict_loop_ok[of codons s_dict self W "[]"] W
    by (simp add: weighted_codons_def)
  from nz obtain c0 where c0: "c0 \<in> set ?wc" "W c0 \<noteq> 0" by blast
  then have ne: "?wc \<noteq> []" by auto
  have mx: "py_max (map snd (map (\<lambda>c. (c, W c)) ?wc)) = Inr M"
    using ne by (simp add: py_max_Max M_def comp_def)
  have "W c0 \<le> M" unfolding M_def using c0(1) by (intro Max_ge) auto
  moreover from nn c0 have "0 < W c0" by force
  ultimately have Mpos: "0 < M" by simp
  have vs_nn: "\<forall>v\<in>set ?vs. 0 \<le> v" using nn Mpos by auto
  have filt: "filter (\<lambda>w. w \<noteq> 0) ?vs = filter (\<lambda>w. 0 < w) ?vs"
  proof (rule filter_cong)
    fix x assume "x \<in> set ?vs"
    with vs_nn have "0 \<le> x" by blast
    then show "(x \<noteq> 0) = (0 < x)" by linarith
  qed simp
  have "W c0 / M \<in> set (filter (\<lambda>w. 0 < w) ?vs)"
    using c0(1) \<open>0 < W c0\<close> Mpos by auto
  then have pos_ne: "filter (\<lambda>w. 0 < w) ?vs \<noteq> []" by (metis empty_iff empty_set)
  have "0 \<le> prod_list (filter (\<lambda>w. 0 < w) ?vs)"
    by (rule prod_list_nonneg) auto
  with pos_ne have gm: "geo_mean (filter (\<lambda>w. w \<noteq> 0) ?vs) = Inr G"
    unfolding filt G_def by (rule geo_mean_nonneg)
  define W0 where "W0 = map (\<lambda>(k, W). (k, W / M)) (map (\<lambda>c. (c, W c)) ?wc)"
  let ?target = "map (\<lambda>c. (c, if W c / M = 0 then G else W c / M)) ?wc"
  have M0: "(M = 0) = False" using Mpos by simp
  have step: "set_w_dict s_dict self =
     (if length (filter (\<lambda>w. w = 0) (map snd W0)) > 0 then
        (case geo_mean (filter (\<lambda>w. w \<noteq> 0) (map snd W0)) of
           Inl e \<Rightarrow> (Some e, self)
         | Inr gm_non_zeros \<Rightarrow>
             (None, self\<lparr>w_dict := Some (map (\<lambda>(k, w).
                (k, if w = 0 then gm_non_zeros else w)) W0)\<rparr>))
      else (None, self\<lparr>w_dict := Some W0\<rparr>))"
    by (simp only: set_w_dict_def loop mx sum.case Let_def M0 if_False W0_def)
  have vals: "map snd W0 = ?vs" by (simp add: W0_def)
  show ?thesis
  proof (cases "length (filter (\<lambda>w. w = 0) ?vs) > 0")
    case True
    have "map (\<lambda>(k, w). (k, if w = 0 then G else w)) W0 = ?target"
      by (simp add: W0_def)
    with True show ?thesis
      by (simp only: step vals if_True gm sum.case)
  next
    case False
    then have "\<forall>c\<in>set ?wc. W c / M \<noteq> 0" by (auto simp: filter_empty_conv)
    then have "?target = map (\<lambda>c. (c, W c / M)) ?wc"
      by (intro map_cong) auto
    also have "\<dots> = W0" by (simp add: W0_def)
    finally show ?thesis using False
      by (simp only: step vals if_False)
  qed
qed

lemma weighted_codons_mem:
  "c \<in> set weighted_codons \<longleftrightarrow> c \<in> set codons \<and> c \<notin> set [''atg'', ''taa'', ''tag'', ''tga'']"
  by (simp add: weighted_codons_def)

lemma get_W_weighted:
  assumes s: "\<forall>k\<in>set s_keys. \<exists>v. s_dict k = Some v \<and> v \<le> 1"
    and d: "tGCN_dict self = Some d" "\<forall>a\<in>set codons. \<exists>n. d a = Some n \<and> 0 \<le> n"
    and c: "c \<in> set weighted_codons"
  shows "\<exists>w. get_W s_dict self c = Inr (Some w) \<and> 0 \<le> w"
proof (cases "c = ''ata''")
  case True
  from s have s': "\<forall>k\<in>set s_keys. s_dict k \<noteq> None" by fastforce
  from get_s_ata[OF s'] obtain v where v: "s_dict ''al'' = Some v"
      "get_s s_dict ''ata'' ''cat'' = Inr v" by blast
  have "''al'' \<in> set s_keys" by (simp add: s_keys_def bases_def)
  with s v(1) have "v \<le> 1" by fastforce
  with get_W_ata[OF v(2)] True show ?thesis by simp
next
  case False
  from s have s': "\<forall>k\<in>set s_keys. s_dict k \<noteq> None" by fastforce
  from d(2) have d': "\<forall>a\<in>set codons. d a \<noteq> None" by fastforce
  from c have c': "c \<in> set codons" "c \<notin> set [''atg'', ''tga'', ''taa'', ''tag'']"
    by (auto simp: weighted_codons_mem)
  from get_W_other[OF s' d(1) d' c' False] obtain acs sv n where
    sub: "set acs \<subseteq> set codons" and
    each: "\<forall>a\<in>set acs. get_s s_dict c a = Inr (sv a) \<and> d a = Some (n a) \<and>
                          (\<exists>k\<in>set s_keys. s_dict k = Some (sv a))" and
    W: "get_W s_dict self c = Inr (Some (sum_list (map (\<lambda>a. (1 - sv a) * n a) acs)))"
    by blast
  have "0 \<le> sum_list (map (\<lambda>a. (1 - sv a) * n a) acs)"
  proof (rule sum_list_nonneg)
    fix t assume "t \<in> set (map (\<lambda>a. (1 - sv a) * n a) acs)"
    then obtain a where a: "a \<in> set acs" "t = (1 - sv a) * n a" by auto
    from each a(1) s have "sv a \<le> 1" by fastforce
    moreover from each a(1) sub d(2) have "0 \<le> n a" by fastforce
    ultimately show "0 \<le> t" by (simp add: a(2))
  qed
  with W show ?thesis by blast
qed

lemma get_W_zero:
  assumes s: "\<forall>k\<in>set s_keys. s_dict k \<noteq> None"
    and d: "tGCN_dict self = Some d" "\<forall>a\<in>set codons. d a = Some 0"
    and c: "c \<in> set weighted_codons" "c \<noteq> ''ata''"
  shows "get_W s_dict self c = Inr (Some 0)"
proof -
  from d(2) have d': "\<forall>a\<in>set codons. d a \<noteq> None" by simp
  from c have c': "c \<in> set codons" "c \<notin> set [''atg'', ''tga'', ''taa'', ''tag'']"
    by (auto simp: weighted_codons_mem)
  from get_W_other[OF s d(1) d' c' c(2)] obtain acs sv n where
    sub: "set acs \<subseteq> set codons" and
    each: "\<forall>a\<in>set acs. get_s s_dict c a = Inr (sv a) \<and> d a = Some (n a) \<and>
                          (\<exists>k\<in>set s_keys. s_dict k = Some (sv a))" and
    W: "get_W s_dict self c = Inr (Some (sum_list (map (\<lambda>a. (1 - sv a) * n a) acs)))"
    by blast
  have "\<forall>a\<in>set acs. n a = 0" using each sub d(2) by fastforce
  then have "map (\<lambda>a. (1 - sv a) * n a) acs = map (\<lambda>a. 0) acs" by (intro map_cong) auto
  also have "sum_list (map (\<lambda>a. 0 :: real) acs) = 0" by simp
  finally have "sum_list (map (\<lambda>a. (1 - sv a) * n a) acs) = 0" .
  with W show ?thesis by simp
qed

subsection \<open>The calculator of the examples\<close>

lemma load_s_dict_lookup:
  "load_s_dict rows k =
     (case map_of (rev (map (\<lambda>(p, s). (normalize_key p, s)) rows)) k of
        Some v \<Rightarrow> Some v
      | None \<Rightarrow> if k \<in> set s_keys then Some 1 else None)"
  by (simp add: load_s_dict_def fold_default fold_assign map_add_def)

lemma ex_s_dict_lookup:
  "ex_s_dict k = (if k = ''ti'' \<or> k = ''al'' then Some 0 else if k \<in> set s_keys then Some 1 else None)"
  by (simp add: ex_s_dict_def load_s_dict_lookup normalize_key_def str_lower_def
      str_replace_def lower_char_def)

lemma ex_s_dict_complete: "\<forall>k\<in>set s_keys. \<exists>v. ex_s_dict k = Some v \<and> v \<le> 1"
proof
  fix k assume "k \<in> set s_keys"
  then show "\<exists>v. ex_s_dict k = Some v \<and> v \<le> 1" by (simp add: ex_s_dict_lookup[of k])
qed

lemma ex_s_dict_complete': "\<forall>k\<in>set s_keys. ex_s_dict k \<noteq> None"
  using ex_s_dict_complete by fastforce

lemma set_tGCN_dict_empty:
  "set_tGCN_dict [] \<lparr>tGCN_dict = t, w_dict = w\<rparr> =
     \<lparr>tGCN_dict = Some (\<lambda>k. if k \<in> set codons then Some 0 else None), w_dict = w\<rparr>"
  by (simp add: set_tGCN_dict_def fold_default)

lemma ata_weighted: "''ata'' \<in> set weighted_codons"
  by (simp add: weighted_codons_def codons_def bases_def)

lemma prod_list_ones: "\<forall>x\<in>set xs. x = (1::real) \<Longrightarrow> prod_list xs = 1"
  by (induction xs) simp_all

lemma geometric_mean_ones:
  assumes "xs \<noteq> []" "\<forall>x\<in>set xs. x = (1::real)"
  shows "geometric_mean xs = 1"
  using assms by (simp add: geometric_mean_def prod_list_ones)

lemma set_w_dict_zero_table:
  assumes "tGCN_dict self = Some (\<lambda>k. if k \<in> set codons then Some 0 else None)"
  shows "set_w_dict ex_s_dict self = (None, self\<lparr>w_dict := Some (map (\<lambda>c. (c, 1)) weighted_codons)\<rparr>)"
proof -
  define W :: "string \<Rightarrow> real" where "W = (\<lambda>c. if c = ''ata'' then 1 else 0)"
  define M where "M = Max (W ` set weighted_codons)"
  define pos where "pos = filter (\<lambda>w. 0 < w) (map (\<lambda>c. W c / M) weighted_codons)"
  have Wata: "W ''ata'' = 1" by (simp add: W_def)
  have Wcases: "W c = 0 \<or> W c = 1" for c by (simp add: W_def)
  have "ex_s_dict ''al'' = Some 0" by (simp add: ex_s_dict_lookup[of "''al''"])
  with get_s_ata[OF ex_s_dict_complete'] have "get_s ex_s_dict ''ata'' ''cat'' = Inr 0"
    by auto
  then have ata: "get_W ex_s_dict self ''ata'' = Inr (Some 1)"
    using get_W_ata[of ex_s_dict 0 self] by simp
  have W: "\<forall>c\<in>set weighted_codons. get_W ex_s_dict self c = Inr (Some (W c))"
  proof
    fix c assume c: "c \<in> set weighted_codons"
    show "get_W ex_s_dict self c = Inr (Some (W c))"
    proof (cases "c = ''ata''")
      case True
      with ata show ?thesis by (simp add: W_def)
    next
      case False
      with get_W_zero[OF ex_s_dict_complete' assms _ c False] show ?thesis
        by (simp add: W_def)
    qed
  qed
  have nn: "\<forall>c\<in>set weighted_codons. 0 \<le> W c" by (simp add: W_def)
  have nz: "\<exists>c\<in>set weighted_codons. W c \<noteq> 0"
    using ata_weighted Wata by force
  have M1: "M = 1"
    unfolding M_def
  proof (rule Max_eqI)
    show "finite (W ` set weighted_codons)" by simp
    show "y \<le> 1" if "y \<in> W ` set weighted_codons" for y
      using that by (auto simp: W_def)
    from ata_weighted Wata show "1 \<in> W ` set weighted_codons" by (metis imageI)
  qed
  have "W ''ata'' / M = 1" by (simp add: Wata M1)
  with ata_weighted have "1 \<in> (\<lambda>c. W c / M) ` set weighted_codons" by (metis imageI)
  then have "1 \<in> set pos" by (simp add: pos_def)
  then have "pos \<noteq> []" by (metis empty_iff empty_set)
  moreover have "\<forall>x\<in>set pos. x = 1"
  proof
    fix x assume "x \<in> set pos"
    then obtain c where "x = W c / M" "0 < x" by (auto simp: pos_def)
    then show "x = 1" using Wcases[of c] by (auto simp: M1)
  qed
  ultimately have G: "geometric_mean pos = 1" by (rule geometric_mean_ones)
  have "map (\<lambda>c. (c, if W c / M = 0 then geometric_mean pos else W c / M)) weighted_codons
        = map (\<lambda>c. (c, 1)) weighted_codons"
  proof (rule map_cong)
    fix c
    show "(c, if W c / M = 0 then geometric_mean pos else W c / M) = (c, 1)"
      using Wcases[of c] by (auto simp: M1 G)
  qed simp
  with set_w_dict_ok[OF W nn nz] show ?thesis by (simp only: M_def pos_def)
qed

lemma TAI_ex: "TAI ex_s_dict [] = Inr ex_tai"
  by (simp add: TAI_def update_def set_tGCN_dict_empty set_w_dict_zero_table ex_tai_def)

lemma aaa_codon: "''aaa'' \<in> set codons" "''ttt'' \<in> set codons"
  by (simp_all add: set_codons bases_def)

lemma xyz_not_codon: "''xyz'' \<notin> set codons"
  by (simp add: set_codons bases_def)

lemma normalize_key_eval:
  "normalize_key ''aaa'' = ''aaa''" "normalize_key ''xyz'' = ''xyz''"
  "normalize_key ''AAU'' = ''aat''"
  by (simp_all add: normalize_key_def str_lower_def str_replace_def lower_char_def)

lemma tGCN_ex_tai: "tGCN_dict ex_tai = Some (\<lambda>k. if k \<in> set codons then Some 0 else None)"
  by (simp add: ex_tai_def)

section \<open>The claims\<close>

subsection \<open>Raw weights\<close>

text \<open>
  C5. \<open>get_W\<close> returns \<open>None\<close> (no weight) for the start codon \<open>atg\<close> and the stop
  codons \<open>taa\<close>, \<open>tga\<close>, \<open>tag\<close>. For \<open>ata\<close> it returns
  \<open>(1 - get_s('ata','cat')) * 1\<close> whatever the calculator's tGCN table holds. For every other
  codon it returns the sum, over the 4 anticodons that \<open>anticodons\<close> gives for it, of
  \<open>(1 - get_s(codon, anticodon)) * tGCN[anticodon]\<close>. The affinity table has all the
  pairing keys that \<open>load_s_dict\<close> guarantees, and the tGCN table an entry for each of the
  64 anticodons.
\<close>

theorem get_W_cases:
  assumes "\<forall>k\<in>set s_keys. s_dict k \<noteq> None"
  shows "(\<forall>codon\<in>set [''atg'', ''taa'', ''tga'', ''tag'']. get_W s_dict self codon = Inr None) \<and>
         (\<exists>v. get_s s_dict ''ata'' ''cat'' = Inr v \<and>
              (\<forall>self'. get_W s_dict self' ''ata'' = Inr (Some ((1 - v) * 1)))) \<and>
         (\<forall>d codon. tGCN_dict self = Some d \<and> (\<forall>a\<in>set codons. d a \<noteq> None) \<and>
              codon \<in> set codons \<and> codon \<notin> set [''atg'', ''taa'', ''tga'', ''tag'', ''ata''] \<longrightarrow>
              (\<exists>acs sv n. anticodons codon = Inr acs \<and> length acs = 4 \<and>
                  set acs \<subseteq> set codons \<and>
                  (\<forall>a\<in>set acs. get_s s_dict codon a = Inr (sv a) \<and> d a = Some (n a)) \<and>
                  get_W s_dict self codon =
                    Inr (Some (sum_list (map (\<lambda>a. (1 - sv a) * n a) acs)))))"
proof (intro conjI allI impI)
  show "\<forall>codon\<in>set [''atg'', ''taa'', ''tga'', ''tag'']. get_W s_dict self codon = Inr None"
    using get_W_excluded by blast
next
  from get_s_ata[OF assms] obtain v where "get_s s_dict ''ata'' ''cat'' = Inr v" by blast
  then show "\<exists>v. get_s s_dict ''ata'' ''cat'' = Inr v \<and>
              (\<forall>self'. get_W s_dict self' ''ata'' = Inr (Some ((1 - v) * 1)))"
    using get_W_ata by blast
next
  fix d codon
  assume h: "tGCN_dict self = Some d \<and> (\<forall>a\<in>set codons. d a \<noteq> None) \<and>
              codon \<in> set codons \<and> codon \<notin> set [''atg'', ''taa'', ''tga'', ''tag'', ''ata'']"
  then have "codon \<notin> set [''atg'', ''tga'', ''taa'', ''tag'']" "codon \<noteq> ''ata''" by auto
  from get_W_other[OF assms _ _ _ this, of self d] h
  show "\<exists>acs sv n. anticodons codon = Inr acs \<and> length acs = 4 \<and>
                  set acs \<subseteq> set codons \<and>
                  (\<forall>a\<in>set acs. get_s s_dict codon a = Inr (sv a) \<and> d a = Some (n a)) \<and>
                  get_W s_dict self codon =
                    Inr (Some (sum_list (map (\<lambda>a. (1 - sv a) * n a) acs)))"
    by blast
qed

theorem get_W_cases_witness:
  "get_W ex_s_dict ex_tai ''atg'' = Inr None \<and>
   get_W ex_s_dict ex_tai ''ata'' = Inr (Some 1) \<and>
   get_W ex_s_dict ex_tai ''ttt'' = Inr (Some 0)"
proof -
  note inst = get_W_cases[OF ex_s_dict_complete', of ex_tai]
  from inst have atg: "get_W ex_s_dict ex_tai ''atg'' = Inr None" by simp
  from inst obtain v where v: "get_s ex_s_dict ''ata'' ''cat'' = Inr v"
    "get_W ex_s_dict ex_tai ''ata'' = Inr (Some ((1 - v) * 1))" by blast
  have "ex_s_dict ''al'' = Some 0" by (simp add: ex_s_dict_lookup[of "''al''"])
  with get_s_ata[OF ex_s_dict_complete'] v(1) have "v = 0" by auto
  with v(2) have ata: "get_W ex_s_dict ex_tai ''ata'' = Inr (Some 1)" by simp
  let ?d = "\<lambda>k. if k \<in> set codons then Some (0::real) else None"
  have "''ttt'' \<notin> set [''atg'', ''taa'', ''tga'', ''tag'', ''ata'']" by simp
  with inst tGCN_ex_tai aaa_codon(2) obtain acs sv n where
    sub: "set acs \<subseteq> set codons" and
    each: "\<forall>a\<in>set acs. get_s ex_s_dict ''ttt'' a = Inr (sv a) \<and> ?d a = Some (n a)" and
    W: "get_W ex_s_dict ex_tai ''ttt'' = Inr (Some (sum_list (map (\<lambda>a. (1 - sv a) * n a) acs)))"
    by (elim conjE allE[of _ ?d] allE[of _ "''ttt''"]) auto
  have "\<forall>a\<in>set acs. n a = 0" using each sub by (auto split: if_splits)
  then have "map (\<lambda>a. (1 - sv a) * n a) acs = map (\<lambda>a. 0) acs" by (intro map_cong) auto
  also have "sum_list (map (\<lambda>a. 0 :: real) acs) = 0" by simp
  finally have "get_W ex_s_dict ex_tai ''ttt'' = Inr (Some 0)" using W by simp
  with atg ata show ?thesis by blast
qed

subsection \<open>Adding gene copies\<close>

lemma added_distinct:
  "distinct (map (\<lambda>(k, n). normalize_key k) extra) \<Longrightarrow> (k, n) \<in> set extra \<Longrightarrow>
   added extra e (normalize_key k) = n * e"
proof (induction extra)
  case Nil
  then show ?case by simp
next
  case (Cons r extra)
  obtain k' n' where r: "r = (k', n')" by (cases r)
  have zero: "added extra e a = 0" if "a \<notin> (\<lambda>(k, n). normalize_key k) ` set extra" for a
    using that unfolding added_def by (induction extra) auto
  show ?case
  proof (cases "(k, n) = r")
    case True
    with Cons.prems(1) have "normalize_key k \<notin> (\<lambda>(k, n). normalize_key k) ` set extra"
      by (auto simp: r)
    from zero[OF this] True show ?thesis by (simp add: added_def r)
  next
    case False
    with Cons.prems(2) have mem: "(k, n) \<in> set extra" by simp
    with Cons.prems(1) have "normalize_key k' \<noteq> normalize_key k" by (force simp: r)
    moreover from Cons.IH Cons.prems(1) mem have "added extra e (normalize_key k) = n * e"
      by simp
    ultimately show ?thesis by (simp add: added_def r)
  qed
qed

lemma added_unlisted:
  "a \<notin> normalize_key ` fst ` set extra \<Longrightarrow> added extra e a = 0"
  unfolding added_def by (induction extra) auto

text \<open>
  C7. For a calculator whose tGCN table has an entry for every (normalised) key of
  \<open>extra\<close>, \<open>add_tRNA_genes(extra, expr_level)\<close> returns normally and changes only the
  tGCN table: the entry of each anticodon grows by the sum of \<open>count * expr_level\<close> over the
  keys that normalise to it, which is exactly \<open>count * expr_level\<close> for a listed anticodon
  when no two keys normalise to the same anticodon, and every anticodon that is not listed
  keeps its count. In particular \<open>add_tRNA_genes({'aaa': 2}, expr_level=0.5)\<close> increases
  \<open>tGCN['aaa']\<close> by exactly 1 and changes nothing else.
\<close>

theorem add_tRNA_genes_adds:
  assumes "tGCN_dict self = Some d"
    and "\<forall>(k, n)\<in>set extra. normalize_key k \<in> dom d"
  shows "\<exists>d'. add_tRNA_genes extra e self = (None, self\<lparr>tGCN_dict := Some d'\<rparr>) \<and>
           dom d' = dom d \<and>
           (\<forall>a\<in>dom d. d' a = Some (the (d a) + added extra e a)) \<and>
           (distinct (map (\<lambda>(k, n). normalize_key k) extra) \<longrightarrow>
              (\<forall>(k, n)\<in>set extra.
                 d' (normalize_key k) = Some (the (d (normalize_key k)) + n * e))) \<and>
           (\<forall>a. a \<notin> normalize_key ` fst ` set extra \<longrightarrow> d' a = d a) \<and>
           (extra = [(''aaa'', 2)] \<and> e = 1 / 2 \<longrightarrow>
              d' ''aaa'' = Some (the (d ''aaa'') + 1) \<and> (\<forall>a. a \<noteq> ''aaa'' \<longrightarrow> d' a = d a))"
proof -
  define d' where "d' = (\<lambda>a. map_option (\<lambda>old. old + added extra e a) (d a))"
  from assms(2) have pre: "\<forall>(k, n)\<in>set extra. d (normalize_key k) \<noteq> None" by auto
  have run: "add_tRNA_genes extra e self = (None, self\<lparr>tGCN_dict := Some d'\<rparr>)"
    unfolding d'_def by (rule add_tRNA_genes_ok[OF assms(1) pre])
  have dom: "dom d' = dom d" by (auto simp: d'_def)
  have val: "\<forall>a\<in>dom d. d' a = Some (the (d a) + added extra e a)"
    by (auto simp: d'_def)
  have listed: "distinct (map (\<lambda>(k, n). normalize_key k) extra) \<longrightarrow>
      (\<forall>(k, n)\<in>set extra. d' (normalize_key k) = Some (the (d (normalize_key k)) + n * e))"
  proof (intro impI ballI)
    fix r assume dist: "distinct (map (\<lambda>(k, n). normalize_key k) extra)" and r: "r \<in> set extra"
    obtain k n where kn: "r = (k, n)" by (cases r)
    from assms(2) r kn have "normalize_key k \<in> dom d" by auto
    with val added_distinct[OF dist, of k n e] r kn
    show "case r of (k, n) \<Rightarrow>
            d' (normalize_key k) = Some (the (d (normalize_key k)) + n * e)"
      by auto
  qed
  have frame: "\<forall>a. a \<notin> normalize_key ` fst ` set extra \<longrightarrow> d' a = d a"
    by (auto simp: d'_def added_unlisted option.map_ident)
  have inst: "extra = [(''aaa'', 2)] \<and> e = 1 / 2 \<longrightarrow>
      d' ''aaa'' = Some (the (d ''aaa'') + 1) \<and> (\<forall>a. a \<noteq> ''aaa'' \<longrightarrow> d' a = d a)"
  proof (intro impI conjI allI)
    assume h: "extra = [(''aaa'', 2)] \<and> e = 1 / 2"
    with assms(2) have "''aaa'' \<in> dom d" by (simp add: normalize_key_eval)
    with val have "d' ''aaa'' = Some (the (d ''aaa'') + added extra e ''aaa'')" by blast
    with h show "d' ''aaa'' = Some (the (d ''aaa'') + 1)"
      by (simp add: added_def normalize_key_eval)
    fix a :: string assume "a \<noteq> ''aaa''"
    with h have "a \<notin> normalize_key ` fst ` set extra" by (simp add: normalize_key_eval)
    with frame show "d' a = d a" by blast
  qed
  from run dom val listed frame inst show ?thesis by blast
qed

theorem add_tRNA_genes_adds_witness:
  "\<exists>d'. add_tRNA_genes [(''aaa'', 2)] (1/2) ex_tai = (None, ex_tai\<lparr>tGCN_dict := Some d'\<rparr>) \<and>
        d' ''aaa'' = Some 1 \<and> d' ''ttt'' = Some 0"
proof -
  let ?d = "\<lambda>k. if k \<in> set codons then Some (0::real) else None"
  have pre: "\<forall>(k, n)\<in>set [(''aaa'', 2::real)]. normalize_key k \<in> dom ?d"
    by (simp add: normalize_key_eval aaa_codon dom_def)
  from add_tRNA_genes_adds[OF tGCN_ex_tai pre, of "1/2"] obtain d' where
    run: "add_tRNA_genes [(''aaa'', 2)] (1/2) ex_tai = (None, ex_tai\<lparr>tGCN_dict := Some d'\<rparr>)"
    and inst: "d' ''aaa'' = Some (the (?d ''aaa'') + 1) \<and> (\<forall>a. a \<noteq> ''aaa'' \<longrightarrow> d' a = ?d a)"
    by auto
  from inst have "d' ''aaa'' = Some 1" by (simp add: aaa_codon)
  moreover from inst have "d' ''ttt'' = Some 0" by (simp add: aaa_codon)
  ultimately show ?thesis using run by blast
qed

subsection \<open>Replacing the tGCN table\<close>

lemma tGCN_update:
  "tGCN_dict (snd (update s_dict counts self)) = tGCN_dict (set_tGCN_dict counts self)"
  by (simp add: update_def tGCN_set_w_dict)

lemma TAI_Inr_update:
  "TAI s_dict counts = Inr st \<Longrightarrow>
   update s_dict counts \<lparr>tGCN_dict = None, w_dict = None\<rparr> = (None, st)"
  by (auto simp: TAI_def split: prod.splits option.splits)

lemma TAI_tGCN:
  assumes "TAI s_dict counts = Inr st"
  shows "tGCN_dict st = tGCN_dict (set_tGCN_dict counts \<lparr>tGCN_dict = None, w_dict = None\<rparr>)"
proof -
  from TAI_Inr_update[OF assms]
  have "st = snd (update s_dict counts \<lparr>tGCN_dict = None, w_dict = None\<rparr>)" by simp
  then show ?thesis by (simp only: tGCN_update)
qed

lemma map_of_rev_None:
  "map_of (rev (map (\<lambda>(k, v). (f k, v)) counts)) a = None \<longleftrightarrow> a \<notin> f ` fst ` set counts"
  by (force simp: map_of_eq_None_iff image_iff)

text \<open>
  C8. After \<open>update(new_counts)\<close>, whether it returns or raises in its recomputation of the
  weights, and after a successful \<open>TAI(initial_counts)\<close>, the tGCN table is the one built from
  the argument alone: the value of the last key that normalises (lower case, u to t) to an
  anticodon, and 0 for each of the 64 anticodons to which no key normalises. So the table has
  an entry for all 64 anticodons, every anticodon absent from the argument has count 0, the
  previous table plays no part (a replacement, not a merge), and after \<open>update({})\<close> every
  anticodon's count is 0.
\<close>

theorem update_replaces_tGCN:
  "\<exists>d. d = (\<lambda>a. case map_of (rev (map (\<lambda>(k, v). (normalize_key k, v)) counts)) a of
                  Some v \<Rightarrow> Some v
                | None \<Rightarrow> if a \<in> set codons then Some 0 else None) \<and>
       (\<forall>self. tGCN_dict (snd (update s_dict counts self)) = Some d) \<and>
       (\<forall>st. TAI s_dict counts = Inr st \<longrightarrow> tGCN_dict st = Some d) \<and>
       length codons = 64 \<and> distinct codons \<and> set codons \<subseteq> dom d \<and>
       (\<forall>a\<in>set codons. a \<notin> normalize_key ` fst ` set counts \<longrightarrow> d a = Some 0) \<and>
       (counts = [] \<longrightarrow> (\<forall>a\<in>set codons. d a = Some 0))"
proof -
  define d where "d = (\<lambda>a. case map_of (rev (map (\<lambda>(k, v). (normalize_key k, v)) counts)) a of
                  Some v \<Rightarrow> Some v
                | None \<Rightarrow> if a \<in> set codons then Some (0::real) else None)"
  have upd: "\<forall>self. tGCN_dict (snd (update s_dict counts self)) = Some d"
    by (simp add: tGCN_update tGCN_set_tGCN_dict d_def)
  have init: "\<forall>st. TAI s_dict counts = Inr st \<longrightarrow> tGCN_dict st = Some d"
    by (auto simp: TAI_tGCN tGCN_set_tGCN_dict d_def)
  have sub: "set codons \<subseteq> dom d"
    by (auto simp: d_def dom_def split: option.splits)
  have absent: "\<forall>a\<in>set codons. a \<notin> normalize_key ` fst ` set counts \<longrightarrow> d a = Some 0"
  proof (intro ballI impI)
    fix a assume "a \<in> set codons" "a \<notin> normalize_key ` fst ` set counts"
    then show "d a = Some 0"
      using map_of_rev_None[of normalize_key counts a] by (simp add: d_def)
  qed
  have empty: "counts = [] \<longrightarrow> (\<forall>a\<in>set codons. d a = Some 0)"
    by (simp add: d_def)
  from upd init sub absent empty length_codons distinct_codons show ?thesis
    unfolding d_def by blast
qed

theorem update_replaces_tGCN_witness:
  "\<exists>d. tGCN_dict (snd (update ex_s_dict [(''AAU'', 3)] ex_tai)) = Some d \<and>
       TAI ex_s_dict [] = Inr ex_tai \<and>
       d ''aat'' = Some 3 \<and> d ''ttt'' = Some 0 \<and>
       tGCN_dict (snd (update ex_s_dict [] ex_tai)) = tGCN_dict ex_tai"
proof -
  from update_replaces_tGCN[of "[(''AAU'', 3)]" ex_s_dict] obtain d where
    d: "d = (\<lambda>a. case map_of (rev (map (\<lambda>(k, v). (normalize_key k, v)) [(''AAU'', 3::real)])) a of
                  Some v \<Rightarrow> Some v
                | None \<Rightarrow> if a \<in> set codons then Some 0 else None)"
    and upd: "tGCN_dict (snd (update ex_s_dict [(''AAU'', 3)] ex_tai)) = Some d"
    and absent: "\<forall>a\<in>set codons. a \<notin> normalize_key ` fst ` set [(''AAU'', 3::real)] \<longrightarrow> d a = Some 0"
    by blast
  have aat: "d ''aat'' = Some 3" by (simp add: d normalize_key_eval)
  have "''ttt'' \<notin> normalize_key ` fst ` set [(''AAU'', 3::real)]"
    by (simp add: normalize_key_eval)
  with absent aaa_codon(2) have ttt: "d ''ttt'' = Some 0" by blast
  from update_replaces_tGCN[of "[]" ex_s_dict] TAI_ex
  have "tGCN_dict (snd (update ex_s_dict [] ex_tai)) = tGCN_dict ex_tai" by metis
  with upd aat ttt TAI_ex show ?thesis by blast
qed

subsection \<open>Keys that are not anticodons\<close>

text \<open>
  C10. A calculator built by \<open>TAI\<close> from counts whose keys all normalise to one of the 64
  triplets has exactly those 64 keys in its tGCN table. \<open>add_tRNA_genes\<close> with a dictionary
  that has a key whose normalised form is not one of the 64 triplets then raises
  \<open>KeyError\<close>: it reads the existing entry, whereas \<open>set_tGCN_dict\<close>, which \<open>TAI\<close> and
  \<open>update\<close> use, stores every key of the same dictionary.
\<close>

theorem add_tRNA_genes_unknown_key:
  assumes "TAI s_dict counts = Inr self"
    and "\<forall>(k, n)\<in>set counts. normalize_key k \<in> set codons"
    and "\<exists>(k, n)\<in>set extra. normalize_key k \<notin> set codons"
  shows "fst (add_tRNA_genes extra e self) = Some KeyError \<and>
         (\<exists>d. tGCN_dict self = Some d \<and> dom d = set codons) \<and>
         (\<exists>d. tGCN_dict (set_tGCN_dict extra self) = Some d \<and>
              normalize_key ` fst ` set extra \<subseteq> dom d)"
proof -
  define d where "d = (\<lambda>a. case map_of (rev (map (\<lambda>(k, v). (normalize_key k, v)) counts)) a of
                  Some v \<Rightarrow> Some v
                | None \<Rightarrow> if a \<in> set codons then Some (0::real) else None)"
  have d: "tGCN_dict self = Some d"
    by (simp add: TAI_tGCN[OF assms(1)] tGCN_set_tGCN_dict d_def)
  have "dom d = set codons"
  proof (intro set_eqI iffI)
    fix a assume "a \<in> dom d"
    show "a \<in> set codons"
    proof (rule ccontr)
      assume no: "a \<notin> set codons"
      with \<open>a \<in> dom d\<close> have "map_of (rev (map (\<lambda>(k, v). (normalize_key k, v)) counts)) a \<noteq> None"
        by (auto simp: d_def dom_def split: option.splits)
      then have "a \<in> normalize_key ` fst ` set counts"
        using map_of_rev_None[of normalize_key counts a] by simp
      with assms(2) no show False by auto
    qed
  next
    fix a assume "a \<in> set codons"
    then show "a \<in> dom d" by (auto simp: d_def dom_def split: option.splits)
  qed
  with assms(3) have "\<exists>(k, n)\<in>set extra. normalize_key k \<notin> dom d" by simp
  from add_tRNA_genes_KeyError[OF d this]
  have err: "fst (add_tRNA_genes extra e self) = Some KeyError" .
  define d2 where "d2 = (\<lambda>a. case map_of (rev (map (\<lambda>(k, v). (normalize_key k, v)) extra)) a of
                  Some v \<Rightarrow> Some v
                | None \<Rightarrow> if a \<in> set codons then Some (0::real) else None)"
  have d2: "tGCN_dict (set_tGCN_dict extra self) = Some d2"
    by (simp add: tGCN_set_tGCN_dict d2_def)
  have "normalize_key ` fst ` set extra \<subseteq> dom d2"
  proof
    fix a assume "a \<in> normalize_key ` fst ` set extra"
    then have "map_of (rev (map (\<lambda>(k, v). (normalize_key k, v)) extra)) a \<noteq> None"
      using map_of_rev_None[of normalize_key extra a] by simp
    then show "a \<in> dom d2" by (auto simp: d2_def dom_def)
  qed
  with err d \<open>dom d = set codons\<close> d2 show ?thesis by blast
qed

theorem add_tRNA_genes_unknown_key_witness:
  "TAI ex_s_dict [] = Inr ex_tai \<and>
   fst (add_tRNA_genes [(''aaa'', 2), (''xyz'', 1)] 1 ex_tai) = Some KeyError"
proof -
  have "\<exists>(k, n)\<in>set [(''aaa'', 2::real), (''xyz'', 1)]. normalize_key k \<notin> set codons"
    by (simp add: normalize_key_eval xyz_not_codon)
  from add_tRNA_genes_unknown_key[OF TAI_ex _ this, of 1] TAI_ex show ?thesis by simp
qed

subsection \<open>The score of a sequence\<close>

lemma range3_mult: "range3 (k * 3) = map (\<lambda>j. 3 * j) [0..<k]"
proof -
  have "(k * 3 + 2) div 3 = k" by presburger
  then show ?thesis by (simp only: range3_def)
qed

lemma codons_list_windows3:
  "map (\<lambda>i. take 3 (drop i s)) (range3 ((length s div 3) * 3)) = windows3 s"
proof (induction s rule: windows3.induct)
  case (1 a b c rest)
  let ?m = "length rest div 3"
  let ?s = "a # b # c # rest"
  have len: "length ?s div 3 = Suc ?m" by simp
  have upt: "[0..<Suc ?m] = 0 # map Suc [0..<?m]"
    by (simp only: map_Suc_upt upt_conv_Cons[of 0 "Suc ?m"] zero_less_Suc)
  have hd: "take 3 (drop (3 * 0) ?s) = [a, b, c]" by simp
  have tl: "take 3 (drop (3 * Suc j) ?s) = take 3 (drop (3 * j) rest)" for j
  proof -
    have "3 * Suc j = 3 * j + 3" by simp
    then have "drop (3 * Suc j) ?s = drop (3 * j) (drop 3 ?s)" by (simp only: drop_drop)
    also have "drop 3 ?s = rest" by simp
    finally show ?thesis by simp
  qed
  have "map (\<lambda>i. take 3 (drop i ?s)) (range3 ((length ?s div 3) * 3))
      = map (\<lambda>j. take 3 (drop (3 * j) ?s)) (0 # map Suc [0..<?m])"
    by (simp only: len range3_mult upt map_map comp_def)
  also have "\<dots> = [a, b, c] # map (\<lambda>j. take 3 (drop (3 * j) rest)) [0..<?m]"
    by (simp only: list.map hd map_map comp_def tl)
  also have "map (\<lambda>j. take 3 (drop (3 * j) rest)) [0..<?m] = windows3 rest"
    using "1.IH" by (simp only: range3_mult map_map comp_def)
  finally show ?case by (simp only: windows3.simps)
qed (simp_all add: range3_def)

lemma get_sequence_codons_spec: "get_sequence_codons seq = spec_codons seq"
  by (simp add: get_sequence_codons_def spec_codons_def Let_def codons_list_windows3
      normalize_key_def codons_to_remove_def)

lemma windows3_chars: "w \<in> set (windows3 s) \<Longrightarrow> set w \<subseteq> set s"
  by (induction s rule: windows3.induct) auto

lemma lower_char_idem: "lower_char (lower_char c) = lower_char c"
proof (cases "map_of (zip ''ABCDEFGHIJKLMNOPQRSTUVWXYZ'' ''abcdefghijklmnopqrstuvwxyz'') c")
  case None
  then show ?thesis by (simp add: lower_char_def)
next
  case (Some d)
  then have "d \<in> set ''abcdefghijklmnopqrstuvwxyz''"
    by (meson map_of_SomeD set_zip_rightD)
  then have "lower_char d = d"
    by (simp only: set_simps insert_iff empty_iff) (elim disjE; simp add: lower_char_def)
  with Some show ?thesis by (simp add: lower_char_def)
qed

lemma normalize_key_lower: "ch \<in> set (normalize_key seq) \<Longrightarrow> lower_char ch = ch"
proof -
  assume "ch \<in> set (normalize_key seq)"
  then have "ch \<in> (\<lambda>c. if lower_char c = CHR ''u'' then CHR ''t'' else lower_char c) ` set seq"
    by (simp add: normalize_key_def str_lower_def str_replace_def comp_def)
  then obtain c where c: "ch = (if lower_char c = CHR ''u'' then CHR ''t'' else lower_char c)"
    by blast
  have t: "lower_char CHR ''t'' = CHR ''t''" by (simp add: lower_char_def)
  show ?thesis
  proof (cases "lower_char c = CHR ''u''")
    case True
    with c t show ?thesis by simp
  next
    case False
    with c show ?thesis by (simp add: lower_char_idem)
  qed
qed

lemma str_lower_normalize_key: "set w \<subseteq> set (normalize_key seq) \<Longrightarrow> str_lower w = w"
  unfolding str_lower_def by (rule map_idI) (auto intro: normalize_key_lower)

lemma str_lower_spec_codons: "map str_lower (spec_codons seq) = spec_codons seq"
proof (rule map_idI)
  fix w assume "w \<in> set (spec_codons seq)"
  then have "w \<in> set (windows3 (normalize_key seq))" by (simp add: spec_codons_def)
  from windows3_chars[OF this] show "str_lower w = w" by (rule str_lower_normalize_key)
qed

lemma ws_loop_ok:
  "w_dict self = Some w \<Longrightarrow> \<forall>c\<in>set cs. map_of w c \<noteq> None \<Longrightarrow>
   ws_loop self cs = Inr (map (\<lambda>c. the (map_of w c)) cs)"
  by (induction cs) auto

lemma ws_loop_Inr:
  "ws_loop self cs = Inr ws \<Longrightarrow> cs \<noteq> [] \<Longrightarrow>
   \<exists>w. w_dict self = Some w \<and> (\<forall>c\<in>set cs. map_of w c \<noteq> None)"
proof (induction cs arbitrary: ws)
  case Nil
  then show ?case by simp
next
  case (Cons c cs)
  from Cons.prems(1) obtain w v ws' where w: "w_dict self = Some w" "map_of w c = Some v"
      "ws_loop self cs = Inr ws'"
    by (auto split: option.splits sum.splits)
  show ?case
  proof (cases "cs = []")
    case True
    with w show ?thesis by simp
  next
    case False
    from Cons.IH[OF w(3) False] w show ?thesis by auto
  qed
qed

lemma get_tai_unfold:
  "get_tai self seq = (case ws_loop self (spec_codons seq) of Inl e \<Rightarrow> Inl e | Inr ws \<Rightarrow> geo_mean ws)"
  by (simp add: get_tai_def get_sequence_codons_spec str_lower_spec_codons)

lemma w_ex_tai: "w_dict ex_tai = Some (map (\<lambda>c. (c, 1)) weighted_codons)"
  by (simp add: ex_tai_def)

lemma map_of_const: "map_of (map (\<lambda>c. (c, v)) xs) c = (if c \<in> set xs then Some v else None)"
  by (induction xs) auto

lemma map_of_ex_w:
  "map_of (map (\<lambda>c. (c, 1::real)) weighted_codons) c =
     (if c \<in> set weighted_codons then Some 1 else None)"
  by (rule map_of_const)

lemma ttt_weighted: "''ttt'' \<in> set weighted_codons"
  by (simp add: weighted_codons_mem aaa_codon)

lemma atg_not_weighted: "''atg'' \<notin> set weighted_codons"
  by (simp add: weighted_codons_mem)

lemma spec_codons_eval:
  "spec_codons ''ATGuuuAUAtaaG'' = [''ttt'', ''ata'']"
  "spec_codons ''ATGtaa'' = []"
  "spec_codons [] = []"
  by (simp_all add: spec_codons_def normalize_key_def str_lower_def str_replace_def lower_char_def)

text \<open>
  C9, as the specification states it, fails: on a sequence made of a start and a stop codon
  the codon list is empty and \<open>get_tai\<close> raises \<open>TypeError\<close>, the exception of \<open>reduce\<close> on an
  empty list, not an \<open>EmptySequenceError\<close>.
\<close>

theorem get_tai_empty_counterexample:
  "get_sequence_codons ''ATGtaa'' = [] \<and>
   get_tai ex_tai ''ATGtaa'' = Inl TypeError \<and>
   get_tai ex_tai ''ATGtaa'' \<noteq> Inl EmptySequenceError"
  by (simp add: get_tai_def geo_mean_Nil get_sequence_codons_spec spec_codons_eval)

text \<open>
  C9, amended. For every input sequence whose filtered codon list is empty, \<open>get_tai\<close> fails:
  it raises \<open>TypeError\<close> and returns no value, in every state of the calculator.
\<close>

theorem get_tai_empty_TypeError:
  assumes "get_sequence_codons seq = []"
  shows "get_tai self seq = Inl TypeError"
proof -
  from assms have "ws_loop self (map str_lower (get_sequence_codons seq)) = Inr []"
    by simp
  then show ?thesis by (simp add: get_tai_def geo_mean_Nil)
qed

theorem get_tai_empty_TypeError_witness:
  "get_sequence_codons [] = [] \<and> get_tai ex_tai [] = Inl TypeError"
proof -
  have e: "get_sequence_codons [] = []" by (simp add: get_sequence_codons_spec spec_codons_eval)
  from get_tai_empty_TypeError[OF e, of ex_tai] e show ?thesis by simp
qed

subsection \<open>Reverse complement\<close>

lemma compl_loop_ok:
  "\<forall>c\<in>set xs. complement c \<noteq> None \<Longrightarrow>
   compl_loop xs acc = Inr (acc @ map (\<lambda>c. the (complement c)) xs)"
  by (induction xs arbitrary: acc) auto

lemma valid_cases:
  "c \<in> set ''acgtu'' \<longleftrightarrow>
     c = CHR ''a'' \<or> c = CHR ''c'' \<or> c = CHR ''g'' \<or> c = CHR ''t'' \<or> c = CHR ''u''"
  by auto

lemma complement_valid:
  assumes "c \<in> set ''acgtu''"
  shows "\<exists>b. complement c = Some b \<and> b \<in> set bases \<and>
             complement b = Some (if c = CHR ''u'' then CHR ''t'' else c)"
  using assms unfolding valid_cases by (elim disjE) (simp_all add: complement_def bases_def)

lemma rev_compl_valid:
  assumes "\<forall>c\<in>set x. lower_char c \<in> set ''acgtu''"
  shows "rev_compl x False = Inr (map (\<lambda>c. the (complement (lower_char c))) (rev x))"
proof -
  have "\<forall>c\<in>set (str_lower (rev x)). complement c \<noteq> None"
    using assms complement_valid by (fastforce simp: str_lower_def)
  from compl_loop_ok[OF this, of "[]"] show ?thesis
    by (simp add: rev_compl_def str_lower_def comp_def)
qed

lemma rev_compl_rev_compl:
  assumes "\<forall>c\<in>set x. lower_char c \<in> set ''acgtu''"
  shows "\<exists>y. rev_compl x False = Inr y \<and> rev_compl y False = Inr (normalize_key x)"
proof -
  let ?f = "\<lambda>c. the (complement (lower_char c))"
  let ?y = "map ?f (rev x)"
  have y: "rev_compl x False = Inr ?y" by (rule rev_compl_valid[OF assms])
  have step: "lower_char (?f c) = ?f c \<and> ?f c \<in> set ''acgtu'' \<and>
              ?f (?f c) = (if lower_char c = CHR ''u'' then CHR ''t'' else lower_char c)"
    if "c \<in> set x" for c
  proof -
    from that assms have "lower_char c \<in> set ''acgtu''" by blast
    from complement_valid[OF this] obtain b where b: "complement (lower_char c) = Some b"
        "b \<in> set bases"
        "complement b = Some (if lower_char c = CHR ''u'' then CHR ''t'' else lower_char c)"
      by blast
    from b(2) have "b \<in> set ''acgtu''" by (auto simp: bases_def)
    with b lower_char_base[OF b(2)] show ?thesis by simp
  qed
  have "\<forall>c\<in>set ?y. lower_char c \<in> set ''acgtu''"
    using step by auto
  from rev_compl_valid[OF this]
  have "rev_compl ?y False = Inr (map ?f (rev ?y))" .
  also have "map ?f (rev ?y) = map (\<lambda>c. ?f (?f c)) x" by (simp add: rev_map comp_def)
  also have "\<dots> = map (\<lambda>c. if lower_char c = CHR ''u'' then CHR ''t'' else lower_char c) x"
  proof (rule map_cong[OF refl])
    fix c assume "c \<in> set x"
    from step[OF this]
    show "?f (?f c) = (if lower_char c = CHR ''u'' then CHR ''t'' else lower_char c)"
      by (rule conjunct2[OF conjunct2])
  qed
  also have "\<dots> = normalize_key x"
    by (simp add: normalize_key_def str_lower_def str_replace_def comp_def)
  finally show ?thesis using y by blast
qed

lemma normalize_key_fixed:
  assumes "\<forall>c\<in>set x. lower_char c \<in> set ''acgtu''"
  shows "normalize_key x = x \<longleftrightarrow> (\<forall>c\<in>set x. c \<in> set ''acgt'')"
proof
  assume eq: "normalize_key x = x"
  show "\<forall>c\<in>set x. c \<in> set ''acgt''"
  proof
    fix c assume c: "c \<in> set x"
    with eq have "c \<in> set (normalize_key x)" by simp
    then obtain c' where c': "c' \<in> set x"
        "c = (if lower_char c' = CHR ''u'' then CHR ''t'' else lower_char c')"
      by (auto simp: normalize_key_def str_lower_def str_replace_def)
    from assms c'(1) have "lower_char c' \<in> set ''acgtu''" by blast
    with c'(2) show "c \<in> set ''acgt''" by (auto split: if_splits)
  qed
next
  assume all: "\<forall>c\<in>set x. c \<in> set ''acgt''"
  have "(if lower_char c = CHR ''u'' then CHR ''t'' else lower_char c) = c" if "c \<in> set x" for c
  proof -
    from all that have "c \<in> set bases" by (auto simp: bases_def)
    from lower_char_base[OF this] this show ?thesis by (auto simp: bases_def)
  qed
  then have "map (\<lambda>c. if lower_char c = CHR ''u'' then CHR ''t'' else lower_char c) x = x"
    by (intro map_idI)
  then show "normalize_key x = x"
    by (simp add: normalize_key_def str_lower_def str_replace_def comp_def)
qed

text \<open>
  C6, as the specification states it, fails: \<open>rev_compl\<close> lower-cases its argument, and its
  complement table sends \<open>u\<close> to \<open>a\<close> but \<open>a\<close> to \<open>t\<close>. Applied twice it turns \<open>u\<close> into
  \<open>t\<close> and \<open>AC\<close> into \<open>ac\<close>.
\<close>

theorem rev_compl_twice_counterexample:
  "rev_compl ''u'' False = Inr ''a'' \<and> rev_compl ''a'' False = Inr ''t'' \<and>
   rev_compl ''AC'' False = Inr ''gt'' \<and> rev_compl ''gt'' False = Inr ''ac''"
  by (simp add: rev_compl_def str_lower_def lower_char_def complement_def)

text \<open>
  C6, amended. For every valid sequence \<open>x\<close> (characters from a, c, g, t, u in either case),
  \<open>rev_compl(rev_compl(x))\<close> returns \<open>x\<close> in lower case with u replaced by t; it returns
  \<open>x\<close> unchanged exactly when \<open>x\<close> is written in lower case over a, c, g, t.
\<close>

theorem rev_compl_twice:
  assumes "\<forall>c\<in>set x. lower_char c \<in> set ''acgtu''"
  shows "\<exists>y. rev_compl x False = Inr y \<and> rev_compl y False = Inr (normalize_key x) \<and>
             (rev_compl y False = Inr x \<longleftrightarrow> (\<forall>c\<in>set x. c \<in> set ''acgt''))"
proof -
  from rev_compl_rev_compl[OF assms] obtain y where
    y: "rev_compl x False = Inr y" "rev_compl y False = Inr (normalize_key x)" by blast
  from y(2) normalize_key_fixed[OF assms]
  have "rev_compl y False = Inr x \<longleftrightarrow> (\<forall>c\<in>set x. c \<in> set ''acgt'')" by simp
  with y show ?thesis by blast
qed

theorem rev_compl_twice_witness:
  "\<exists>y. rev_compl ''ACGU'' False = Inr y \<and> rev_compl y False = Inr ''acgt'' \<and>
        rev_compl y False \<noteq> Inr ''ACGU''"
proof -
  have pre: "\<forall>c\<in>set ''ACGU''. lower_char c \<in> set ''acgtu''"
    by (simp add: lower_char_def)
  have n: "normalize_key ''ACGU'' = ''acgt''"
    by (simp add: normalize_key_def str_lower_def str_replace_def lower_char_def)
  from rev_compl_twice[OF pre] obtain y where
    "rev_compl ''ACGU'' False = Inr y" "rev_compl y False = Inr (normalize_key ''ACGU'')"
    by blast
  then show ?thesis unfolding n by auto
qed

subsection \<open>Normalised weights\<close>

lemma length_weighted_codons: "length weighted_codons = 60"
  by (simp add: weighted_codons_def codons_def bases_def)

lemma set_weighted_codons:
  "set weighted_codons = set codons - {''atg'', ''taa'', ''tag'', ''tga''}"
  by (auto simp: weighted_codons_def)

lemma set_w_dict_ex_tai: "set_w_dict ex_s_dict ex_tai = (None, ex_tai)"
  using set_w_dict_zero_table[OF tGCN_ex_tai] by (simp add: ex_tai_def)

lemma get_W_ata_ex: "get_W ex_s_dict self ''ata'' = Inr (Some 1)"
proof -
  have "ex_s_dict ''al'' = Some 0" by (simp add: ex_s_dict_lookup[of "''al''"])
  with get_s_ata[OF ex_s_dict_complete'] have "get_s ex_s_dict ''ata'' ''cat'' = Inr 0"
    by auto
  from get_W_ata[OF this] show ?thesis by simp
qed

text \<open>
  C4, as the specification states it, fails on the number of codons. Of the 61 sense codons
  (the 64 codons without \<open>taa\<close>, \<open>tag\<close>, \<open>tga\<close>) the start codon \<open>atg\<close> has no raw weight,
  and \<open>set_w_dict\<close> gives it no normalised weight: the tables it builds have 60 entries.
\<close>

theorem set_w_dict_sense_codons_counterexample:
  "length (filter (\<lambda>codon. codon \<notin> {''taa'', ''tag'', ''tga''}) codons) = 61 \<and>
   ''atg'' \<in> set (filter (\<lambda>codon. codon \<notin> {''taa'', ''tag'', ''tga''}) codons) \<and>
   get_W ex_s_dict ex_tai ''atg'' = Inr None \<and>
   fst (set_w_dict ex_s_dict ex_tai) = None \<and>
   length (the (w_dict (snd (set_w_dict ex_s_dict ex_tai)))) = 60 \<and>
   map_of (the (w_dict (snd (set_w_dict ex_s_dict ex_tai)))) ''atg'' = None"
proof -
  have "length (filter (\<lambda>codon. codon \<notin> {''taa'', ''tag'', ''tga''}) codons) = 61"
    by (simp add: codons_def bases_def)
  moreover have "''atg'' \<in> set (filter (\<lambda>codon. codon \<notin> {''taa'', ''tag'', ''tga''}) codons)"
    by (simp add: set_codons bases_def)
  moreover have "get_W ex_s_dict ex_tai ''atg'' = Inr None" by (simp add: get_W_excluded)
  moreover have "length (the (w_dict (snd (set_w_dict ex_s_dict ex_tai)))) = 60"
    by (simp add: set_w_dict_ex_tai w_ex_tai length_weighted_codons)
  moreover have "map_of (the (w_dict (snd (set_w_dict ex_s_dict ex_tai)))) ''atg'' = None"
    by (simp add: set_w_dict_ex_tai w_ex_tai map_of_ex_w atg_not_weighted)
  ultimately show ?thesis by (simp add: set_w_dict_ex_tai)
qed

text \<open>
  C4, amended. Take an affinity table with every pairing key and no value above 1, and a
  tGCN table with a non-negative count for each of the 64 anticodons, such that not all raw
  weights are zero. Then \<open>set_w_dict\<close> returns normally, and the new \<open>w_dict\<close> has one entry
  for each of the 60 codons other than \<open>atg\<close>, \<open>taa\<close>, \<open>tag\<close>, \<open>tga\<close>: the raw weight \<open>W\<close> of
  the codon divided by the maximum raw weight over these 60 codons or, where that quotient
  is exactly 0, the geometric mean of the strictly positive quotients.
\<close>

theorem set_w_dict_normalizes:
  assumes s: "\<forall>k\<in>set s_keys. \<exists>v. s_dict k = Some v \<and> v \<le> 1"
    and d: "tGCN_dict self = Some d" "\<forall>a\<in>set codons. \<exists>n. d a = Some n \<and> 0 \<le> n"
    and nz: "\<exists>c\<in>set weighted_codons. get_W s_dict self c \<noteq> Inr (Some 0)"
  shows "\<exists>W M G.
      (\<forall>c\<in>set weighted_codons. get_W s_dict self c = Inr (Some (W c))) \<and>
      M = Max (W ` set weighted_codons) \<and> 0 < M \<and>
      G = geometric_mean (filter (\<lambda>w. 0 < w) (map (\<lambda>c. W c / M) weighted_codons)) \<and>
      set_w_dict s_dict self =
        (None, self\<lparr>w_dict := Some (map (\<lambda>c. (c, if W c / M = 0 then G else W c / M))
                                         weighted_codons)\<rparr>) \<and>
      length weighted_codons = 60 \<and>
      set weighted_codons = set codons - {''atg'', ''taa'', ''tag'', ''tga''}"
proof -
  define W where "W = (\<lambda>c. case get_W s_dict self c of Inr (Some w) \<Rightarrow> w | _ \<Rightarrow> 0)"
  have each: "get_W s_dict self c = Inr (Some (W c)) \<and> 0 \<le> W c" if "c \<in> set weighted_codons" for c
    using get_W_weighted[OF s d that] by (auto simp: W_def)
  then have W: "\<forall>c\<in>set weighted_codons. get_W s_dict self c = Inr (Some (W c))"
    and nn: "\<forall>c\<in>set weighted_codons. 0 \<le> W c" by blast+
  from nz W obtain c0 where c0: "c0 \<in> set weighted_codons" "W c0 \<noteq> 0" by force
  then have nz': "\<exists>c\<in>set weighted_codons. W c \<noteq> 0" by blast
  have "W c0 \<le> Max (W ` set weighted_codons)" using c0(1) by (intro Max_ge) auto
  moreover from nn c0 have "0 < W c0" by force
  ultimately have "0 < Max (W ` set weighted_codons)" by simp
  with set_w_dict_ok[OF W nn nz'] W length_weighted_codons set_weighted_codons
  show ?thesis by blast
qed

theorem set_w_dict_normalizes_witness:
  "(\<exists>W M G.
      get_W ex_s_dict ex_tai ''ata'' = Inr (Some (W ''ata'')) \<and>
      M = Max (W ` set weighted_codons) \<and> 0 < M \<and>
      G = geometric_mean (filter (\<lambda>w. 0 < w) (map (\<lambda>c. W c / M) weighted_codons)) \<and>
      set_w_dict ex_s_dict ex_tai =
        (None, ex_tai\<lparr>w_dict := Some (map (\<lambda>c. (c, if W c / M = 0 then G else W c / M))
                                           weighted_codons)\<rparr>)) \<and>
   set_w_dict ex_s_dict ex_tai = (None, ex_tai) \<and>
   w_dict ex_tai = Some (map (\<lambda>c. (c, 1)) weighted_codons)"
proof -
  have d: "\<forall>a\<in>set codons. \<exists>n. (if a \<in> set codons then Some (0::real) else None) = Some n \<and> 0 \<le> n"
    by simp
  have nz: "\<exists>c\<in>set weighted_codons. get_W ex_s_dict ex_tai c \<noteq> Inr (Some 0)"
    using ata_weighted get_W_ata_ex[of ex_tai] by force
  from set_w_dict_normalizes[OF ex_s_dict_complete tGCN_ex_tai d nz] ata_weighted
  have "\<exists>W M G.
      get_W ex_s_dict ex_tai ''ata'' = Inr (Some (W ''ata'')) \<and>
      M = Max (W ` set weighted_codons) \<and> 0 < M \<and>
      G = geometric_mean (filter (\<lambda>w. 0 < w) (map (\<lambda>c. W c / M) weighted_codons)) \<and>
      set_w_dict ex_s_dict ex_tai =
        (None, ex_tai\<lparr>w_dict := Some (map (\<lambda>c. (c, if W c / M = 0 then G else W c / M))
                                           weighted_codons)\<rparr>)"
    by blast
  with set_w_dict_ex_tai w_ex_tai show ?thesis by blast
qed

subsection \<open>Weights after adding gene copies\<close>

lemma get_s_value:
  assumes s: "\<forall>k\<in>set s_keys. s_dict k \<noteq> None"
    and xyz: "x \<in> set bases" "y \<in> set bases" "z \<in> set bases"
    and b: "b \<in> set bases"
    and ata: "[x, y, z] \<noteq> ''ata''"
  shows "get_s s_dict [x, y, z] [b, the (complement y), the (complement x)] =
           Inr (the (s_dict [z, if b = CHR ''a'' then CHR ''i'' else b]))"
proof -
  let ?a = "[b, the (complement y), the (complement x)]"
  let ?r = "if b = CHR ''a'' then CHR ''i'' else b"
  have "?r \<in> set bases \<or> ?r = CHR ''i'' \<or> ?r = CHR ''l''" using b by auto
  with xyz(3) have "[z, ?r] \<in> set s_keys" by (rule s_key_mem)
  with s obtain v where v: "s_dict [z, ?r] = Some v" by blast
  have mem: "?a \<in> set (map (\<lambda>b. [b, the (complement y), the (complement x)]) bases)"
    using b by simp
  show ?thesis
    unfolding get_s_def anticodons_codon[OF xyz(1,2)] using mem v ata
    by (auto simp: Let_def)
qed

lemma get_W_formula:
  assumes s: "\<forall>k\<in>set s_keys. s_dict k \<noteq> None"
    and d: "tGCN_dict self = Some d" "\<forall>a\<in>set codons. d a \<noteq> None"
    and xyz: "codon = [x, y, z]" "x \<in> set bases" "y \<in> set bases" "z \<in> set bases"
    and codon: "codon \<notin> set [''atg'', ''tga'', ''taa'', ''tag'']" "codon \<noteq> ''ata''"
  shows "get_W s_dict self codon =
     Inr (Some (sum_list (map (\<lambda>b. (1 - the (s_dict [z, if b = CHR ''a'' then CHR ''i'' else b])) *
                                  the (d [b, the (complement y), the (complement x)])) bases)))"
proof -
  define acs where "acs = map (\<lambda>b. [b, the (complement y), the (complement x)]) bases"
  define sv where "sv = (\<lambda>a. the (s_dict [z, if hd a = CHR ''a'' then CHR ''i'' else hd a]))"
  define n where "n = (\<lambda>a. the (d a))"
  have acs: "anticodons codon = Inr acs"
    unfolding acs_def xyz(1) by (rule anticodons_codon[OF xyz(2,3)])
  have each: "\<forall>a\<in>set acs. get_s s_dict codon a = Inr (sv a) \<and> d a = Some (n a)"
  proof
    fix a assume "a \<in> set acs"
    then obtain b where b: "b \<in> set bases" "a = [b, the (complement y), the (complement x)]"
      by (auto simp: acs_def)
    from codon(2) have "[x, y, z] \<noteq> ''ata''" unfolding xyz(1) .
    from get_s_value[OF s xyz(2,3,4) b(1) this] have "get_s s_dict codon a = Inr (sv a)"
      by (simp add: sv_def b(2) xyz(1))
    moreover from anticodon_in_codons[OF xyz(2,3) b(1)] d(2) have "d a = Some (n a)"
      by (auto simp: n_def b(2))
    ultimately show "get_s s_dict codon a = Inr (sv a) \<and> d a = Some (n a)" ..
  qed
  have "get_W s_dict self codon = Inr (Some (sum_list (map (\<lambda>a. (1 - sv a) * n a) acs)))"
    using codon by (simp add: get_W_def acs W_loop_sum[OF d(1) each])
  also have "map (\<lambda>a. (1 - sv a) * n a) acs =
      map (\<lambda>b. (1 - the (s_dict [z, if b = CHR ''a'' then CHR ''i'' else b])) *
                the (d [b, the (complement y), the (complement x)])) bases"
    by (simp add: acs_def sv_def n_def comp_def)
  finally show ?thesis .
qed

lemma add_ex_ok: "add_tRNA_genes [(''aaa'', 2)] 1 ex_tai = (None, ex_tai2)"
proof -
  have "(\<lambda>k. if k \<in> set codons then Some (0::real) else None)(''aaa'' \<mapsto> 2) =
        (\<lambda>k. if k = ''aaa'' then Some 2 else if k \<in> set codons then Some 0 else None)"
    by (auto simp: fun_eq_iff)
  then show ?thesis
    by (simp add: tGCN_ex_tai normalize_key_eval aaa_codon ex_tai2_def)
qed

lemma ex_s_i: "z \<in> set bases \<Longrightarrow> the (ex_s_dict [z, CHR ''i'']) = (if z = CHR ''t'' then 0 else 1)"
  by (simp add: ex_s_dict_lookup[of "[z, CHR ''i'']"] s_key_mem)

lemma get_W_aaa_table:
  assumes s: "\<forall>k\<in>set s_keys. s_dict k \<noteq> None"
    and si: "\<And>z. z \<in> set bases \<Longrightarrow>
               the (s_dict [z, CHR ''i'']) = (if z = CHR ''t'' then 0 else 1)"
    and tab: "tGCN_dict self =
       Some (\<lambda>k. if k = ''aaa'' then Some 2 else if k \<in> set codons then Some 0 else None)"
    and c: "c \<in> set weighted_codons" "c \<noteq> ''ata''"
  shows "get_W s_dict self c = Inr (Some (if c = ''ttt'' then 2 else 0))"
proof -
  let ?d = "\<lambda>k. if k = ''aaa'' then Some (2::real) else if k \<in> set codons then Some 0 else None"
  note d = tab
  have d': "\<forall>a\<in>set codons. ?d a \<noteq> None" by simp
  from c(1) obtain x y z where xyz: "c = [x, y, z]"
      "x \<in> set bases" "y \<in> set bases" "z \<in> set bases"
    by (auto simp: weighted_codons_mem set_codons)
  from c(1) have ex: "c \<notin> set [''atg'', ''tga'', ''taa'', ''tag'']"
    by (auto simp: weighted_codons_mem)
  have cy: "the (complement y) = CHR ''a'' \<longleftrightarrow> y = CHR ''t''"
    using xyz(3) unfolding bases_cases by (elim disjE) (simp_all add: complement_def)
  have cx: "the (complement x) = CHR ''a'' \<longleftrightarrow> x = CHR ''t''"
    using xyz(2) unfolding bases_cases by (elim disjE) (simp_all add: complement_def)
  have "c = ''ttt'' \<longleftrightarrow> z = CHR ''t'' \<and> y = CHR ''t'' \<and> x = CHR ''t''"
    by (auto simp: xyz(1))
  then have target: "(if c = ''ttt'' then 2 else (0::real)) =
      (if z = CHR ''t'' \<and> y = CHR ''t'' \<and> x = CHR ''t'' then 2 else 0)"
    by simp
  have prodb: "(1 - the (s_dict [z, if b = CHR ''a'' then CHR ''i'' else b])) *
            the (?d [b, the (complement y), the (complement x)]) =
          (if b = CHR ''a'' \<and> z = CHR ''t'' \<and> y = CHR ''t'' \<and> x = CHR ''t'' then 2 else 0)"
    if b: "b \<in> set bases" for b
  proof (cases "b = CHR ''a'' \<and> y = CHR ''t'' \<and> x = CHR ''t''")
    case True
    then have "the (?d [b, the (complement y), the (complement x)]) = 2"
      using cy cx by simp
    moreover from True have "the (s_dict [z, if b = CHR ''a'' then CHR ''i'' else b]) =
        (if z = CHR ''t'' then 0 else 1)"
      using si[OF xyz(4)] by simp
    ultimately show ?thesis using True by simp
  next
    case False
    have "[b, the (complement y), the (complement x)] \<in> set codons"
      by (rule anticodon_in_codons[OF xyz(2,3) b])
    moreover from False have "[b, the (complement y), the (complement x)] \<noteq> ''aaa''"
      using cy cx by auto
    ultimately have "the (?d [b, the (complement y), the (complement x)]) = 0"
      by simp
    with False show ?thesis by auto
  qed
  have "get_W s_dict self c =
     Inr (Some (sum_list (map (\<lambda>b. (1 - the (s_dict [z, if b = CHR ''a'' then CHR ''i'' else b])) *
                                  the (?d [b, the (complement y), the (complement x)])) bases)))"
    by (rule get_W_formula[OF s d d' xyz ex c(2)])
  also have "map (\<lambda>b. (1 - the (s_dict [z, if b = CHR ''a'' then CHR ''i'' else b])) *
                                  the (?d [b, the (complement y), the (complement x)])) bases =
     map (\<lambda>b. if b = CHR ''a'' \<and> z = CHR ''t'' \<and> y = CHR ''t'' \<and> x = CHR ''t'' then 2 else 0) bases"
    by (rule map_cong[OF refl]) (rule prodb)
  also have "sum_list (map (\<lambda>b. if b = CHR ''a'' \<and> z = CHR ''t'' \<and> y = CHR ''t'' \<and> x = CHR ''t''
        then 2 else 0 :: real) bases) = (if z = CHR ''t'' \<and> y = CHR ''t'' \<and> x = CHR ''t'' then 2 else 0)"
    by (simp add: bases_def)
  finally show ?thesis unfolding target .
qed

lemma get_W_ex_tai2:
  assumes c: "c \<in> set weighted_codons"
  shows "get_W ex_s_dict ex_tai2 c =
           Inr (Some (if c = ''ttt'' then 2 else if c = ''ata'' then 1 else 0))"
proof (cases "c = ''ata''")
  case True
  then show ?thesis by (simp add: get_W_ata_ex)
next
  case False
  have "tGCN_dict ex_tai2 =
       Some (\<lambda>k. if k = ''aaa'' then Some 2 else if k \<in> set codons then Some 0 else None)"
    by (simp add: ex_tai2_def)
  from get_W_aaa_table[OF ex_s_dict_complete' ex_s_i this c False] False
  show ?thesis by simp
qed

lemma map_of_map_key:
  "map_of (map (\<lambda>c. (c, f c)) xs) c = (if c \<in> set xs then Some (f c) else None)"
  by (induction xs) auto

lemma set_w_dict_ex_tai2:
  "\<exists>G. set_w_dict ex_s_dict ex_tai2 =
     (None, ex_tai2\<lparr>w_dict := Some (map (\<lambda>c. (c, if c = ''ttt'' then 1 else if c = ''ata'' then 1 / 2 else G))
                                        weighted_codons)\<rparr>)"
proof -
  define W :: "string \<Rightarrow> real" where
    "W = (\<lambda>c. if c = ''ttt'' then 2 else if c = ''ata'' then 1 else 0)"
  define M where "M = Max (W ` set weighted_codons)"
  define G where "G = geometric_mean (filter (\<lambda>w. 0 < w) (map (\<lambda>c. W c / M) weighted_codons))"
  have Wttt: "W ''ttt'' = 2" by (simp add: W_def)
  have W: "\<forall>c\<in>set weighted_codons. get_W ex_s_dict ex_tai2 c = Inr (Some (W c))"
    using get_W_ex_tai2 by (simp add: W_def)
  have nn: "\<forall>c\<in>set weighted_codons. 0 \<le> W c" by (simp add: W_def)
  have nz: "\<exists>c\<in>set weighted_codons. W c \<noteq> 0" using ttt_weighted Wttt by force
  have M2: "M = 2"
    unfolding M_def
  proof (rule Max_eqI)
    show "finite (W ` set weighted_codons)" by simp
    show "y \<le> 2" if "y \<in> W ` set weighted_codons" for y
      using that by (auto simp: W_def)
    from ttt_weighted Wttt show "2 \<in> W ` set weighted_codons" by (metis imageI)
  qed
  have "map (\<lambda>c. (c, if W c / M = 0 then G else W c / M)) weighted_codons =
        map (\<lambda>c. (c, if c = ''ttt'' then 1 else if c = ''ata'' then 1 / 2 else G)) weighted_codons"
    by (rule map_cong[OF refl]) (simp add: W_def M2)
  with set_w_dict_ok[OF W nn nz] show ?thesis by (auto simp only: M_def G_def)
qed

text \<open>
  C2 fails on the code. \<open>add_tRNA_genes\<close> changes \<open>tGCN_dict\<close> and never calls
  \<open>set_w_dict\<close>, which \<open>update\<close> does after it has changed the table: \<open>w_dict\<close> is the same
  before and after every call. On the calculator built from the empty dictionary,
  \<open>add_tRNA_genes({'aaa': 2})\<close> returns normally and leaves \<open>w_dict['ata']\<close> at 1, while
  \<open>set_w_dict\<close> on the new table gives \<open>w_dict['ata'] = 1/2\<close>.
\<close>

theorem add_tRNA_genes_stale_w_dict:
  "(\<forall>extra e self. w_dict (snd (add_tRNA_genes extra e self)) = w_dict self) \<and>
   TAI ex_s_dict [] = Inr ex_tai \<and>
   fst (add_tRNA_genes [(''aaa'', 2)] 1 ex_tai) = None \<and>
   the (tGCN_dict (snd (add_tRNA_genes [(''aaa'', 2)] 1 ex_tai))) ''aaa'' = Some 2 \<and>
   map_of (the (w_dict (snd (add_tRNA_genes [(''aaa'', 2)] 1 ex_tai)))) ''ata'' = Some 1 \<and>
   fst (set_w_dict ex_s_dict (snd (add_tRNA_genes [(''aaa'', 2)] 1 ex_tai))) = None \<and>
   map_of (the (w_dict (snd (set_w_dict ex_s_dict (snd (add_tRNA_genes [(''aaa'', 2)] 1 ex_tai))))))
     ''ata'' = Some (1 / 2)"
proof -
  from set_w_dict_ex_tai2 obtain G where
    G: "set_w_dict ex_s_dict ex_tai2 =
     (None, ex_tai2\<lparr>w_dict := Some (map (\<lambda>c. (c, if c = ''ttt'' then 1 else if c = ''ata'' then 1 / 2 else G))
                                        weighted_codons)\<rparr>)"
    by blast
  have stale: "map_of (the (w_dict ex_tai2)) ''ata'' = Some 1"
    by (simp add: ex_tai2_def w_ex_tai map_of_ex_w ata_weighted)
  have fresh: "map_of (the (w_dict (snd (set_w_dict ex_s_dict ex_tai2)))) ''ata'' = Some (1 / 2)"
    by (simp add: G map_of_map_key ata_weighted)
  have t: "the (tGCN_dict ex_tai2) ''aaa'' = Some 2" by (simp add: ex_tai2_def)
  from stale fresh t G TAI_ex w_add_tRNA_genes show ?thesis
    by (simp add: add_ex_ok del: add_tRNA_genes.simps)
qed

subsection \<open>Operations that fail\<close>

lemma add_tRNA_genes_frame:
  "a \<notin> normalize_key ` fst ` set extra \<Longrightarrow>
   map_option (\<lambda>d. d a) (tGCN_dict (snd (add_tRNA_genes extra e self))) =
   map_option (\<lambda>d. d a) (tGCN_dict self)"
proof (induction extra arbitrary: self)
  case Nil
  show ?case by simp
next
  case (Cons r extra)
  obtain k n where r: "r = (k, n)" by (cases r)
  from Cons.prems have a: "a \<noteq> normalize_key k" "a \<notin> normalize_key ` fst ` set extra"
    by (auto simp: r)
  show ?case
  proof (cases "tGCN_dict self")
    case None
    then show ?thesis by (simp add: r)
  next
    case (Some d)
    show ?thesis
    proof (cases "d (normalize_key k)")
      case None
      with Some show ?thesis by (simp add: r)
    next
      case (Some old)
      with \<open>tGCN_dict self = Some d\<close> Cons.IH[OF a(2)] a(1) show ?thesis
        by (simp add: r)
    qed
  qed
qed

lemma set_w_dict_zero_division:
  assumes "\<forall>c\<in>set weighted_codons. get_W s_dict self c = Inr (Some 0)"
  shows "set_w_dict s_dict self = (Some ZeroDivisionError, self)"
proof -
  have loop: "W_dict_loop s_dict self codons [] = Inr (map (\<lambda>c. (c, 0)) weighted_codons)"
    using W_dict_loop_ok[of codons s_dict self "\<lambda>c. 0" "[]"] assms
    by (simp add: weighted_codons_def)
  have ne: "weighted_codons \<noteq> []" using ata_weighted by auto
  then have "Max (set (map (\<lambda>c. 0::real) weighted_codons)) = 0" by simp
  with ne have "py_max (map snd (map (\<lambda>c. (c, 0::real)) weighted_codons)) = Inr 0"
    by (simp add: py_max_Max comp_def)
  with loop show ?thesis by (simp add: set_w_dict_def)
qed

lemma add_ex_fail:
  "add_tRNA_genes [(''aaa'', 2), (''xyz'', 1)] 1 ex_tai =
     (Some KeyError,
      ex_tai\<lparr>tGCN_dict := Some ((\<lambda>k. if k \<in> set codons then Some 0 else None)(''aaa'' \<mapsto> 2))\<rparr>)"
  by (simp add: tGCN_ex_tai normalize_key_eval aaa_codon xyz_not_codon)

lemma str_keys_Str: "str_keys (map (\<lambda>(k, v). (Str k, v)) counts) = Inr counts"
  by (induction counts) auto

lemma update_call_Dict:
  "update_call s_dict (Dict (map (\<lambda>(k, v). (Str k, v)) counts)) self = update s_dict counts self"
  by (simp add: update_call_def set_tGCN_dict_call_def str_keys_Str update_def)

lemma add_tRNA_genes_loop_Str:
  "add_tRNA_genes_loop (map (\<lambda>(k, v). (Str k, v)) extra) e self = add_tRNA_genes extra e self"
  by (induction extra e self rule: add_tRNA_genes.induct) (auto split: option.splits)

lemma add_tRNA_genes_call_Dict:
  "add_tRNA_genes_call (Dict (map (\<lambda>(k, v). (Str k, v)) extra)) e self =
     add_tRNA_genes extra e self"
  by (simp add: add_tRNA_genes_call_def add_tRNA_genes_loop_Str)

lemma TAI_call_Dict:
  "TAI_call s_dict (Dict (map (\<lambda>(k, v). (Str k, v)) counts)) = TAI s_dict counts"
  by (simp add: TAI_call_def TAI_def update_call_Dict)

lemma w_add_tRNA_genes_loop: "w_dict (snd (add_tRNA_genes_loop items e self)) = w_dict self"
  by (induction items e self rule: add_tRNA_genes_loop.induct) (auto split: option.splits)

lemma add_tRNA_genes_loop_frame:
  "\<forall>k n. (Str k, n) \<in> set items \<longrightarrow> normalize_key k \<noteq> a \<Longrightarrow>
   map_option (\<lambda>d. d a) (tGCN_dict (snd (add_tRNA_genes_loop items e self))) =
   map_option (\<lambda>d. d a) (tGCN_dict self)"
proof (induction items e self rule: add_tRNA_genes_loop.induct)
  case (1 e self)
  show ?case by simp
next
  case (2 n rest e self)
  show ?case by simp
next
  case (3 k n rest e self)
  show ?case
  proof (cases "tGCN_dict self")
    case None
    then show ?thesis by simp
  next
    case (Some d)
    show ?thesis
    proof (cases "d (normalize_key k)")
      case None
      with Some show ?thesis by simp
    next
      case (Some old)
      from "3.prems" have rest: "\<forall>k n. (Str k, n) \<in> set rest \<longrightarrow> normalize_key k \<noteq> a"
        and k: "normalize_key k \<noteq> a" by auto
      from "3.IH"[OF \<open>tGCN_dict self = Some d\<close> Some rest] k \<open>tGCN_dict self = Some d\<close> Some
      show ?thesis by simp
    qed
  qed
qed

lemma ex_s_dict2_lookup:
  "ex_s_dict2 k = (if k = ''ti'' then Some 0 else if k \<in> set s_keys then Some 1 else None)"
  by (simp add: ex_s_dict2_def load_s_dict_lookup normalize_key_def str_lower_def
      str_replace_def lower_char_def)

lemma ex_s_dict2_complete: "\<forall>k\<in>set s_keys. ex_s_dict2 k \<noteq> None"
proof
  fix k assume "k \<in> set s_keys"
  then show "ex_s_dict2 k \<noteq> None" by (simp add: ex_s_dict2_lookup[of k])
qed

lemma ex_s2_i:
  "z \<in> set bases \<Longrightarrow> the (ex_s_dict2 [z, CHR ''i'']) = (if z = CHR ''t'' then 0 else 1)"
  by (simp add: ex_s_dict2_lookup[of "[z, CHR ''i'']"] s_key_mem)

lemma get_W_ata_ex2: "get_W ex_s_dict2 self ''ata'' = Inr (Some 0)"
proof -
  have "''al'' \<in> set s_keys" by (simp add: s_keys_def bases_def)
  then have "ex_s_dict2 ''al'' = Some 1" by (simp add: ex_s_dict2_lookup[of "''al''"])
  with get_s_ata[OF ex_s_dict2_complete] have "get_s ex_s_dict2 ''ata'' ''cat'' = Inr 1"
    by auto
  from get_W_ata[OF this] show ?thesis by simp
qed

lemma set_w_dict_ex2_aaa:
  assumes tab: "tGCN_dict self =
       Some (\<lambda>k. if k = ''aaa'' then Some 2 else if k \<in> set codons then Some 0 else None)"
  shows "set_w_dict ex_s_dict2 self =
           (None, self\<lparr>w_dict := Some (map (\<lambda>c. (c, 1)) weighted_codons)\<rparr>)"
proof -
  define W :: "string \<Rightarrow> real" where "W = (\<lambda>c. if c = ''ttt'' then 2 else 0)"
  define M where "M = Max (W ` set weighted_codons)"
  define pos where "pos = filter (\<lambda>w. 0 < w) (map (\<lambda>c. W c / M) weighted_codons)"
  have Wttt: "W ''ttt'' = 2" by (simp add: W_def)
  have Wcases: "W c = 0 \<or> W c = 2" for c by (simp add: W_def)
  have W: "\<forall>c\<in>set weighted_codons. get_W ex_s_dict2 self c = Inr (Some (W c))"
  proof
    fix c assume c: "c \<in> set weighted_codons"
    show "get_W ex_s_dict2 self c = Inr (Some (W c))"
    proof (cases "c = ''ata''")
      case True
      then show ?thesis by (simp add: get_W_ata_ex2 W_def)
    next
      case False
      from get_W_aaa_table[OF ex_s_dict2_complete ex_s2_i tab c False] show ?thesis
        by (simp add: W_def)
    qed
  qed
  have nn: "\<forall>c\<in>set weighted_codons. 0 \<le> W c" by (simp add: W_def)
  have nz: "\<exists>c\<in>set weighted_codons. W c \<noteq> 0" using ttt_weighted Wttt by force
  have M2: "M = 2"
    unfolding M_def
  proof (rule Max_eqI)
    show "finite (W ` set weighted_codons)" by simp
    show "y \<le> 2" if "y \<in> W ` set weighted_codons" for y
      using that by (auto simp: W_def)
    from ttt_weighted Wttt show "2 \<in> W ` set weighted_codons" by (metis imageI)
  qed
  have "W ''ttt'' / M = 1" by (simp add: Wttt M2)
  with ttt_weighted have "1 \<in> (\<lambda>c. W c / M) ` set weighted_codons" by (metis imageI)
  then have "1 \<in> set pos" by (simp add: pos_def)
  then have "pos \<noteq> []" by (metis empty_iff empty_set)
  moreover have "\<forall>x\<in>set pos. x = 1"
  proof
    fix x assume "x \<in> set pos"
    then obtain c where "x = W c / M" "0 < x" by (auto simp: pos_def)
    then show "x = 1" using Wcases[of c] by (auto simp: M2)
  qed
  ultimately have G: "geometric_mean pos = 1" by (rule geometric_mean_ones)
  have "map (\<lambda>c. (c, if W c / M = 0 then geometric_mean pos else W c / M)) weighted_codons
        = map (\<lambda>c. (c, 1)) weighted_codons"
  proof (rule map_cong)
    fix c
    show "(c, if W c / M = 0 then geometric_mean pos else W c / M) = (c, 1)"
      using Wcases[of c] by (auto simp: M2 G)
  qed simp
  with set_w_dict_ok[OF W nn nz] show ?thesis by (simp only: M_def pos_def)
qed

lemma TAI_ex2: "TAI ex_s_dict2 [(''aaa'', 2)] = Inr ex_tai2"
proof -
  let ?init = "\<lparr>tGCN_dict = None, w_dict = None\<rparr>"
  let ?d = "\<lambda>k. if k = ''aaa'' then Some (2::real) else if k \<in> set codons then Some 0 else None"
  have tab: "tGCN_dict (set_tGCN_dict [(''aaa'', 2)] ?init) = Some ?d"
    by (auto simp: tGCN_set_tGCN_dict normalize_key_eval fun_eq_iff)
  have w: "w_dict (set_tGCN_dict [(''aaa'', 2)] ?init) = None"
    by (simp add: w_set_tGCN_dict)
  have "set_tGCN_dict [(''aaa'', 2)] ?init = \<lparr>tGCN_dict = Some ?d, w_dict = None\<rparr>"
    using tab w by (cases "set_tGCN_dict [(''aaa'', 2)] ?init") simp
  with set_w_dict_ex2_aaa[OF tab] show ?thesis
    by (simp add: TAI_def update_def ex_tai2_def ex_tai_def)
qed

lemma update_ex2_empty:
  "update ex_s_dict2 [] self = (Some ZeroDivisionError, set_tGCN_dict [] self)"
proof -
  let ?st = "set_tGCN_dict [] self"
  have d: "tGCN_dict ?st = Some (\<lambda>k. if k \<in> set codons then Some 0 else None)"
    by (simp add: tGCN_set_tGCN_dict)
  have d0: "\<forall>a\<in>set codons. (if a \<in> set codons then Some (0::real) else None) = Some 0" by simp
  have "\<forall>c\<in>set weighted_codons. get_W ex_s_dict2 ?st c = Inr (Some 0)"
  proof
    fix c assume c: "c \<in> set weighted_codons"
    show "get_W ex_s_dict2 ?st c = Inr (Some 0)"
    proof (cases "c = ''ata''")
      case True
      then show ?thesis by (simp add: get_W_ata_ex2)
    next
      case False
      from get_W_zero[OF ex_s_dict2_complete d d0 c False] show ?thesis .
    qed
  qed
  from set_w_dict_zero_division[OF this] show ?thesis by (simp add: update_def)
qed

lemma str_keys_Inl: "str_keys items = Inl e \<Longrightarrow> e = AttributeError"
  by (induction items rule: str_keys.induct) (auto split: sum.splits)

lemma update_call_fails:
  assumes "fst (update_call s_dict arg self) = Some err"
  shows "w_dict (snd (update_call s_dict arg self)) = w_dict self \<and>
         (arg = NotDict \<longrightarrow> err = ValueError \<and> snd (update_call s_dict arg self) = self) \<and>
         (\<forall>items. arg = Dict items \<longrightarrow>
            (case str_keys items of
               Inl e \<Rightarrow> err = AttributeError \<and> snd (update_call s_dict arg self) = self
             | Inr counts \<Rightarrow>
                 tGCN_dict (snd (update_call s_dict arg self)) =
                   tGCN_dict (set_tGCN_dict counts self)))"
proof (cases arg)
  case NotDict
  with assms show ?thesis by (simp add: update_call_def set_tGCN_dict_call_def)
next
  case (Dict items)
  show ?thesis
  proof (cases "str_keys items")
    case (Inl e)
    with Dict assms str_keys_Inl[OF Inl] show ?thesis
      by (simp add: update_call_def set_tGCN_dict_call_def)
  next
    case (Inr counts)
    with Dict have run: "update_call s_dict arg self = set_w_dict s_dict (set_tGCN_dict counts self)"
      by (simp add: update_call_def set_tGCN_dict_call_def)
    with assms have "fst (set_w_dict s_dict (set_tGCN_dict counts self)) = Some err" by simp
    from w_set_w_dict_fail[OF this] run
    have "snd (update_call s_dict arg self) = set_tGCN_dict counts self" by simp
    with Dict Inr show ?thesis by (simp add: w_set_tGCN_dict)
  qed
qed

text \<open>
  C3, as the specification states it, fails: the operations are not atomic. On the
  calculator built from the empty dictionary, \<open>add_tRNA_genes({'aaa': 2, 'xyz': 1})\<close> raises
  \<open>KeyError\<close> at its second key after it has added 2 to the first. On the calculator built
  from \<open>{'aaa': 2}\<close> over the affinity file with the single row \<open>ti,0\<close>, \<open>update({})\<close> raises
  \<open>ZeroDivisionError\<close>, all raw weights being 0, after it has replaced the tGCN table.
\<close>

theorem atomicity_counterexample:
  "TAI ex_s_dict [] = Inr ex_tai \<and>
   fst (add_tRNA_genes [(''aaa'', 2), (''xyz'', 1)] 1 ex_tai) = Some KeyError \<and>
   the (tGCN_dict ex_tai) ''aaa'' = Some 0 \<and>
   the (tGCN_dict (snd (add_tRNA_genes [(''aaa'', 2), (''xyz'', 1)] 1 ex_tai))) ''aaa'' = Some 2 \<and>
   TAI ex_s_dict2 [(''aaa'', 2)] = Inr ex_tai2 \<and>
   fst (update ex_s_dict2 [] ex_tai2) = Some ZeroDivisionError \<and>
   the (tGCN_dict ex_tai2) ''aaa'' = Some 2 \<and>
   the (tGCN_dict (snd (update ex_s_dict2 [] ex_tai2))) ''aaa'' = Some 0"
proof -
  have "the (tGCN_dict ex_tai2) ''aaa'' = Some 2" by (simp add: ex_tai2_def)
  moreover have "the (tGCN_dict (snd (update ex_s_dict2 [] ex_tai2))) ''aaa'' = Some 0"
    by (simp add: update_ex2_empty tGCN_set_tGCN_dict aaa_codon)
  ultimately show ?thesis
    by (simp add: TAI_ex TAI_ex2 add_ex_fail update_ex2_empty tGCN_ex_tai aaa_codon
        del: add_tRNA_genes.simps)
qed

text \<open>
  C3, amended. A failing operation leaves \<open>w_dict\<close> exactly as it was before the call, but
  not always \<open>tGCN_dict\<close>. When \<open>update\<close> raises on its argument (\<open>ValueError\<close> for an
  argument that is no dictionary, \<open>AttributeError\<close> for a key that is no string), the
  calculator is as before the call; when it raises an exception while it recomputes the
  weights, the tGCN table has already been replaced by the table of the new counts. When
  \<open>add_tRNA_genes\<close> raises on an argument that is no dictionary, the calculator is as
  before; when it raises at a key, the entries of the anticodons to which no key
  normalises are as before, and entries of listed anticodons may already have been
  increased. \<open>get_tai\<close> leaves the calculator as it is. A failing \<open>TAI\<close> returns no
  calculator: it fails as \<open>update\<close> does on the fresh object.
\<close>

theorem failure_keeps_w_dict:
  "(fst (update_call s_dict arg self) = Some err \<and> err \<noteq> ComplexValue \<longrightarrow>
      w_dict (snd (update_call s_dict arg self)) = w_dict self \<and>
      (arg = NotDict \<longrightarrow> err = ValueError \<and> snd (update_call s_dict arg self) = self) \<and>
      (\<forall>items. arg = Dict items \<longrightarrow>
         (case str_keys items of
            Inl e \<Rightarrow> err = AttributeError \<and> snd (update_call s_dict arg self) = self
          | Inr counts \<Rightarrow>
              tGCN_dict (snd (update_call s_dict arg self)) =
                tGCN_dict (set_tGCN_dict counts self)))) \<and>
   (fst (add_tRNA_genes_call arg e self) = Some err \<longrightarrow>
      w_dict (snd (add_tRNA_genes_call arg e self)) = w_dict self \<and>
      (arg = NotDict \<longrightarrow> err = ValueError \<and> snd (add_tRNA_genes_call arg e self) = self) \<and>
      (\<forall>items a. arg = Dict items \<and> (\<forall>k n. (Str k, n) \<in> set items \<longrightarrow> normalize_key k \<noteq> a) \<longrightarrow>
         map_option (\<lambda>d. d a) (tGCN_dict (snd (add_tRNA_genes_call arg e self))) =
         map_option (\<lambda>d. d a) (tGCN_dict self))) \<and>
   snd (get_tai_call self seq) = self \<and>
   (TAI_call s_dict arg = Inl err \<longrightarrow>
      fst (update_call s_dict arg \<lparr>tGCN_dict = None, w_dict = None\<rparr>) = Some err)"
proof (intro conjI)
  show "fst (update_call s_dict arg self) = Some err \<and> err \<noteq> ComplexValue \<longrightarrow>
      w_dict (snd (update_call s_dict arg self)) = w_dict self \<and>
      (arg = NotDict \<longrightarrow> err = ValueError \<and> snd (update_call s_dict arg self) = self) \<and>
      (\<forall>items. arg = Dict items \<longrightarrow>
         (case str_keys items of
            Inl e \<Rightarrow> err = AttributeError \<and> snd (update_call s_dict arg self) = self
          | Inr counts \<Rightarrow>
              tGCN_dict (snd (update_call s_dict arg self)) =
                tGCN_dict (set_tGCN_dict counts self)))"
    using update_call_fails by blast
next
  show "fst (add_tRNA_genes_call arg e self) = Some err \<longrightarrow>
      w_dict (snd (add_tRNA_genes_call arg e self)) = w_dict self \<and>
      (arg = NotDict \<longrightarrow> err = ValueError \<and> snd (add_tRNA_genes_call arg e self) = self) \<and>
      (\<forall>items a. arg = Dict items \<and> (\<forall>k n. (Str k, n) \<in> set items \<longrightarrow> normalize_key k \<noteq> a) \<longrightarrow>
         map_option (\<lambda>d. d a) (tGCN_dict (snd (add_tRNA_genes_call arg e self))) =
         map_option (\<lambda>d. d a) (tGCN_dict self))"
  proof (intro impI conjI allI)
    assume f: "fst (add_tRNA_genes_call arg e self) = Some err"
    show "w_dict (snd (add_tRNA_genes_call arg e self)) = w_dict self"
      by (cases arg) (simp_all add: add_tRNA_genes_call_def w_add_tRNA_genes_loop)
    show "err = ValueError" if "arg = NotDict"
      using that f by (simp add: add_tRNA_genes_call_def)
    show "snd (add_tRNA_genes_call arg e self) = self" if "arg = NotDict"
      using that by (simp add: add_tRNA_genes_call_def)
    fix items a
    assume "arg = Dict items \<and> (\<forall>k n. (Str k, n) \<in> set items \<longrightarrow> normalize_key k \<noteq> a)"
    then show "map_option (\<lambda>d. d a) (tGCN_dict (snd (add_tRNA_genes_call arg e self))) =
         map_option (\<lambda>d. d a) (tGCN_dict self)"
      by (simp add: add_tRNA_genes_call_def add_tRNA_genes_loop_frame)
  qed
next
  show "snd (get_tai_call self seq) = self" by (simp add: get_tai_call_def)
next
  show "TAI_call s_dict arg = Inl err \<longrightarrow>
      fst (update_call s_dict arg \<lparr>tGCN_dict = None, w_dict = None\<rparr>) = Some err"
    by (auto simp: TAI_call_def split: prod.splits option.splits)
qed

theorem failure_keeps_w_dict_witness:
  "TAI ex_s_dict2 [(''aaa'', 2)] = Inr ex_tai2 \<and>
   fst (update_call ex_s_dict2 (Dict []) ex_tai2) = Some ZeroDivisionError \<and>
   w_dict (snd (update_call ex_s_dict2 (Dict []) ex_tai2)) = w_dict ex_tai2 \<and>
   tGCN_dict (snd (update_call ex_s_dict2 (Dict []) ex_tai2)) = tGCN_dict (set_tGCN_dict [] ex_tai2) \<and>
   update_call ex_s_dict NotDict ex_tai = (Some ValueError, ex_tai) \<and>
   update_call ex_s_dict (Dict [(Str ''aaa'', 1), (NotStr, 1)]) ex_tai = (Some AttributeError, ex_tai) \<and>
   fst (add_tRNA_genes_call (Dict [(Str ''aaa'', 2), (Str ''xyz'', 1)]) 1 ex_tai) = Some KeyError \<and>
   w_dict (snd (add_tRNA_genes_call (Dict [(Str ''aaa'', 2), (Str ''xyz'', 1)]) 1 ex_tai)) =
     w_dict ex_tai \<and>
   map_option (\<lambda>d. d ''ttt'')
     (tGCN_dict (snd (add_tRNA_genes_call (Dict [(Str ''aaa'', 2), (Str ''xyz'', 1)]) 1 ex_tai))) =
     map_option (\<lambda>d. d ''ttt'') (tGCN_dict ex_tai) \<and>
   TAI_call ex_s_dict NotDict = Inl ValueError \<and>
   snd (get_tai_call ex_tai ''ATGtaa'') = ex_tai"
proof -
  let ?bad = "Dict [(Str ''aaa'', 2), (Str ''xyz'', 1)]"
  let ?mixed = "Dict [(Str ''aaa'', 1), (NotStr, 1)]"
  have u0: "update_call ex_s_dict2 (Dict []) ex_tai2 = update ex_s_dict2 [] ex_tai2"
    using update_call_Dict[of ex_s_dict2 "[]" ex_tai2] by simp
  have u: "fst (update_call ex_s_dict2 (Dict []) ex_tai2) = Some ZeroDivisionError"
    by (simp add: u0 update_ex2_empty)
  from failure_keeps_w_dict[of ex_s_dict2 "Dict []" ex_tai2 ZeroDivisionError] u
  have c1: "w_dict (snd (update_call ex_s_dict2 (Dict []) ex_tai2)) = w_dict ex_tai2 \<and>
    tGCN_dict (snd (update_call ex_s_dict2 (Dict []) ex_tai2)) = tGCN_dict (set_tGCN_dict [] ex_tai2)"
    by simp
  have v: "fst (update_call ex_s_dict NotDict ex_tai) = Some ValueError"
    by (simp add: update_call_def set_tGCN_dict_call_def)
  from failure_keeps_w_dict[of ex_s_dict NotDict ex_tai ValueError] v
  have c2: "update_call ex_s_dict NotDict ex_tai = (Some ValueError, ex_tai)"
    by (simp add: prod_eq_iff)
  have m: "fst (update_call ex_s_dict ?mixed ex_tai) = Some AttributeError"
    by (simp add: update_call_def set_tGCN_dict_call_def)
  from failure_keeps_w_dict[of ex_s_dict ?mixed ex_tai AttributeError] m
  have c3: "update_call ex_s_dict ?mixed ex_tai = (Some AttributeError, ex_tai)"
    by (simp add: prod_eq_iff)
  have a0: "add_tRNA_genes_call ?bad 1 ex_tai = add_tRNA_genes [(''aaa'', 2), (''xyz'', 1)] 1 ex_tai"
    using add_tRNA_genes_call_Dict[of "[(''aaa'', 2), (''xyz'', 1)]" 1 ex_tai] by simp
  have a: "fst (add_tRNA_genes_call ?bad 1 ex_tai) = Some KeyError"
    by (simp add: a0 add_ex_fail del: add_tRNA_genes.simps)
  have t: "\<forall>k n. (Str k, n) \<in> set [(Str ''aaa'', 2::real), (Str ''xyz'', 1)] \<longrightarrow>
             normalize_key k \<noteq> ''ttt''"
    by (auto simp: normalize_key_eval)
  from failure_keeps_w_dict[of _ ?bad ex_tai KeyError 1] a t
  have c4: "w_dict (snd (add_tRNA_genes_call ?bad 1 ex_tai)) = w_dict ex_tai \<and>
    map_option (\<lambda>d. d ''ttt'') (tGCN_dict (snd (add_tRNA_genes_call ?bad 1 ex_tai))) =
    map_option (\<lambda>d. d ''ttt'') (tGCN_dict ex_tai)"
    by blast
  have c5: "TAI_call ex_s_dict NotDict = Inl ValueError"
    by (simp add: TAI_call_def update_call_def set_tGCN_dict_call_def)
  from failure_keeps_w_dict[of _ _ ex_tai _ _ "''ATGtaa''"]
  have c6: "snd (get_tai_call ex_tai ''ATGtaa'') = ex_tai" by blast
  from TAI_ex2 u c1 c2 c3 a c4 c5 c6 show ?thesis by blast
qed

lemma round_half_even_of_int: "round_half_even (of_int z) = z"
  by (simp add: round_half_even_def)

lemma round_half_even_half: "round_half_even (1 / 2) = 0"
proof -
  have "\<lfloor>1 / 2 :: real\<rfloor> = 0" by simp
  then show ?thesis by (simp add: round_half_even_def Let_def)
qed

lemma float_round_pow2:
  assumes "m \<le> 1074"
  shows "float_round (2 powr (- real m)) = 2 powr (- real m)"
proof -
  let ?x = "2 powr (- real m) :: real"
  define e where "e = max \<lfloor>log 2 \<bar>?x\<bar>\<rfloor> (- 1022)"
  define u :: real where "u = 2 powr (of_int e - 52)"
  have pos: "0 < ?x" by simp
  have "log 2 \<bar>?x\<bar> = - real m" by simp
  also have "\<dots> = of_int (- int m)" by simp
  finally have fl: "\<lfloor>log 2 \<bar>?x\<bar>\<rfloor> = - int m" by (simp only: floor_of_int)
  have e: "e = max (- int m) (- 1022)" by (simp only: e_def fl)
  define j where "j = nat (52 - int m - e)"
  have j: "int j = 52 - int m - e" using assms by (auto simp: j_def e max_def)
  have "?x / u = 2 powr (- real m - (of_int e - 52))"
    by (simp add: u_def powr_diff)
  also have "- real m - (of_int e - 52) = real j"
  proof -
    have "real j = real_of_int (int j)" by simp
    also have "\<dots> = real_of_int (52 - int m - e)" by (simp only: j)
    finally show ?thesis by simp
  qed
  also have "(2::real) powr real j = 2 ^ j" by (simp add: powr_realpow)
  also have "(2::real) ^ j = of_int (2 ^ j)" by simp
  finally have q: "?x / u = of_int (2 ^ j)" .
  have upos: "0 < u" by (simp add: u_def)
  have "float_round ?x = of_int (round_half_even (?x / u)) * u"
    using pos by (simp add: float_round_def Let_def e_def u_def)
  also have "\<dots> = (?x / u) * u" by (simp only: q round_half_even_of_int)
  also have "\<dots> = ?x" using upos by simp
  finally show ?thesis .
qed

lemma float_round_underflow: "float_round (2 powr (- 1075)) = 0"
proof -
  let ?x = "2 powr (- 1075) :: real"
  define u :: real where "u = 2 powr (- 1074)"
  have pos: "0 < ?x" by simp
  have "log 2 \<bar>?x\<bar> = of_int (- 1075)" by simp
  then have fl: "\<lfloor>log 2 \<bar>?x\<bar>\<rfloor> = - 1075" by (simp only: floor_of_int)
  have e: "max \<lfloor>log 2 \<bar>?x\<bar>\<rfloor> (- 1022) = - 1022" by (simp only: fl)
  have "?x / u = 2 powr (- 1075 - (- 1074))" unfolding u_def by (simp only: powr_diff)
  also have "\<dots> = 1 / 2" by (simp add: powr_minus)
  finally have q: "?x / u = 1 / 2" .
  have "float_round ?x = of_int (round_half_even (?x / u)) * u"
    using pos by (simp add: float_round_def Let_def e u_def)
  then show ?thesis by (simp only: q round_half_even_half of_int_0 mult_zero_left)
qed

lemma half_powr: "(1 / 2 :: real) = 2 powr (- 1)"
  by (simp add: powr_minus)

lemma float_mult_half:
  assumes "k \<le> 1074"
  shows "float_mult (2 powr (- real k)) (1 / 2) =
           Inr (if k < 1074 then 2 powr (- real (Suc k)) else 0)"
proof -
  have "- real k + (- 1) = - real (Suc k)" by simp
  then have "(2::real) powr (- real k) * 2 powr (- 1) = 2 powr (- real (Suc k))"
    by (simp only: powr_add[symmetric])
  then have prod: "2 powr (- real k) * (1 / 2 :: real) = 2 powr (- real (Suc k))"
    by (simp only: half_powr[symmetric])
  show ?thesis
  proof (cases "k < 1074")
    case True
    then have "Suc k \<le> 1074" by simp
    from float_round_pow2[OF this] have r: "float_round (2 powr (- real (Suc k))) = 2 powr (- real (Suc k))" .
    have "(2::real) powr (- real (Suc k)) \<le> 2 powr 0" by (intro powr_mono) simp_all
    then have "(2::real) powr (- real (Suc k)) \<le> 1" by simp
    moreover have "(1::real) < 2 ^ 1024" by simp
    ultimately have "\<not> 2 ^ 1024 \<le> \<bar>2 powr (- real (Suc k)) :: real\<bar>" by simp
    with True show ?thesis by (simp only: float_mult_def prod r Let_def if_False if_True)
  next
    case False
    with assms have k: "k = 1074" by simp
    have "- real (Suc k) = - 1075" by (simp add: k)
    then have r: "float_round (2 powr (- real (Suc k))) = 0"
      by (simp only: float_round_underflow)
    have "\<not> 2 ^ 1024 \<le> \<bar>0 :: real\<bar>" by simp
    with False show ?thesis by (simp only: float_mult_def prod r Let_def if_False)
  qed
qed

lemma float_mult_zero: "float_mult 0 y = Inr 0"
  by (simp add: float_mult_def float_round_def)

lemma product_float_loop_zero: "product_float_loop 0 (replicate n y) = Inr 0"
  by (induction n) (simp_all add: float_mult_zero)

lemma product_float_loop_half:
  "k \<le> 1074 \<Longrightarrow>
   product_float_loop (2 powr (- real k)) (replicate n (1 / 2)) =
     Inr (if k + n \<le> 1074 then 2 powr (- real (k + n)) else 0)"
proof (induction n arbitrary: k)
  case 0
  then show ?case by simp
next
  case (Suc n)
  show ?case
  proof (cases "k < 1074")
    case True
    then have "Suc k \<le> 1074" by simp
    from Suc.IH[OF this] float_mult_half[OF Suc.prems] True show ?thesis
      by (simp del: of_nat_Suc of_nat_add)
  next
    case False
    with float_mult_half[OF Suc.prems] show ?thesis
      by (simp add: product_float_loop_zero del: of_nat_Suc of_nat_add)
  qed
qed

lemma product_float_half:
  "product_float (replicate (Suc n) (1 / 2)) =
     Inr (if Suc n \<le> 1074 then 2 powr (- real (Suc n)) else 0)"
proof -
  have "product_float (replicate (Suc n) (1 / 2)) =
        product_float_loop (2 powr (- real 1)) (replicate n (1 / 2))"
    by (simp add: powr_minus)
  also have "\<dots> = Inr (if 1 + n \<le> 1074 then 2 powr (- real (1 + n)) else 0)"
    by (rule product_float_loop_half) simp
  finally show ?thesis by simp
qed

lemma product_float_1100: "product_float (replicate 1100 (1 / 2)) = Inr 0"
proof -
  have "(1100::nat) = Suc 1099" by simp
  then have "product_float (replicate 1100 (1 / 2)) = product_float (replicate (Suc 1099) (1 / 2))"
    by (simp only:)
  also have "\<dots> = Inr 0" by (simp only: product_float_half) simp
  finally show ?thesis .
qed

lemma get_W_ex_aaa:
  assumes tab: "tGCN_dict self =
       Some (\<lambda>k. if k = ''aaa'' then Some 2 else if k \<in> set codons then Some 0 else None)"
    and c: "c \<in> set weighted_codons"
  shows "get_W ex_s_dict self c =
           Inr (Some (if c = ''ttt'' then 2 else if c = ''ata'' then 1 else 0))"
proof (cases "c = ''ata''")
  case True
  then show ?thesis by (simp add: get_W_ata_ex)
next
  case False
  from get_W_aaa_table[OF ex_s_dict_complete' ex_s_i tab c False] False
  show ?thesis by simp
qed

lemma set_w_dict_ex_aaa:
  "\<exists>G. \<forall>self. tGCN_dict self =
       Some (\<lambda>k. if k = ''aaa'' then Some 2 else if k \<in> set codons then Some 0 else None) \<longrightarrow>
     set_w_dict ex_s_dict self =
       (None, self\<lparr>w_dict := Some (map (\<lambda>c. (c, if c = ''ttt'' then 1 else if c = ''ata'' then 1 / 2 else G))
                                        weighted_codons)\<rparr>)"
proof -
  define W :: "string \<Rightarrow> real" where
    "W = (\<lambda>c. if c = ''ttt'' then 2 else if c = ''ata'' then 1 else 0)"
  define M where "M = Max (W ` set weighted_codons)"
  define G where "G = geometric_mean (filter (\<lambda>w. 0 < w) (map (\<lambda>c. W c / M) weighted_codons))"
  have Wttt: "W ''ttt'' = 2" by (simp add: W_def)
  have nn: "\<forall>c\<in>set weighted_codons. 0 \<le> W c" by (simp add: W_def)
  have nz: "\<exists>c\<in>set weighted_codons. W c \<noteq> 0" using ttt_weighted Wttt by force
  have M2: "M = 2"
    unfolding M_def
  proof (rule Max_eqI)
    show "finite (W ` set weighted_codons)" by simp
    show "y \<le> 2" if "y \<in> W ` set weighted_codons" for y
      using that by (auto simp: W_def)
    from ttt_weighted Wttt show "2 \<in> W ` set weighted_codons" by (metis imageI)
  qed
  have eq: "map (\<lambda>c. (c, if W c / M = 0 then G else W c / M)) weighted_codons =
        map (\<lambda>c. (c, if c = ''ttt'' then 1 else if c = ''ata'' then 1 / 2 else G)) weighted_codons"
    by (rule map_cong[OF refl]) (simp add: W_def M2)
  have "set_w_dict ex_s_dict self =
       (None, self\<lparr>w_dict := Some (map (\<lambda>c. (c, if c = ''ttt'' then 1 else if c = ''ata'' then 1 / 2 else G))
                                        weighted_codons)\<rparr>)"
    if tab: "tGCN_dict self =
       Some (\<lambda>k. if k = ''aaa'' then Some 2 else if k \<in> set codons then Some 0 else None)"
    for self
  proof -
    have W: "\<forall>c\<in>set weighted_codons. get_W ex_s_dict self c = Inr (Some (W c))"
      using get_W_ex_aaa[OF tab] by (simp add: W_def)
    from set_w_dict_ok[OF W nn nz] eq show ?thesis by (simp only: M_def G_def)
  qed
  then show ?thesis by blast
qed

lemma set_tGCN_dict_aaa:
  "set_tGCN_dict [(''aaa'', 2)] \<lparr>tGCN_dict = None, w_dict = None\<rparr> =
     \<lparr>tGCN_dict = Some (\<lambda>k. if k = ''aaa'' then Some 2
                             else if k \<in> set codons then Some 0 else None),
      w_dict = None\<rparr>"
proof -
  let ?init = "\<lparr>tGCN_dict = None, w_dict = None\<rparr>"
  let ?d = "\<lambda>k. if k = ''aaa'' then Some (2::real) else if k \<in> set codons then Some 0 else None"
  have tab: "tGCN_dict (set_tGCN_dict [(''aaa'', 2)] ?init) = Some ?d"
    by (auto simp: tGCN_set_tGCN_dict normalize_key_eval fun_eq_iff)
  have w: "w_dict (set_tGCN_dict [(''aaa'', 2)] ?init) = None"
    by (simp add: w_set_tGCN_dict)
  show ?thesis using tab w by (cases "set_tGCN_dict [(''aaa'', 2)] ?init") simp
qed

lemma TAI_ex_aaa:
  "\<exists>G. TAI ex_s_dict [(''aaa'', 2)] =
     Inr \<lparr>tGCN_dict = Some (\<lambda>k. if k = ''aaa'' then Some 2
                                  else if k \<in> set codons then Some 0 else None),
          w_dict = Some (map (\<lambda>c. (c, if c = ''ttt'' then 1 else if c = ''ata'' then 1 / 2 else G))
                             weighted_codons)\<rparr>"
proof -
  from set_w_dict_ex_aaa obtain G where G: "\<And>self. tGCN_dict self =
       Some (\<lambda>k. if k = ''aaa'' then Some 2 else if k \<in> set codons then Some 0 else None) \<Longrightarrow>
     set_w_dict ex_s_dict self =
       (None, self\<lparr>w_dict := Some (map (\<lambda>c. (c, if c = ''ttt'' then 1 else if c = ''ata'' then 1 / 2 else G))
                                        weighted_codons)\<rparr>)"
    by blast
  have "TAI ex_s_dict [(''aaa'', 2)] =
     Inr \<lparr>tGCN_dict = Some (\<lambda>k. if k = ''aaa'' then Some 2
                                  else if k \<in> set codons then Some 0 else None),
          w_dict = Some (map (\<lambda>c. (c, if c = ''ttt'' then 1 else if c = ''ata'' then 1 / 2 else G))
                             weighted_codons)\<rparr>"
    by (simp add: TAI_def update_def set_tGCN_dict_aaa G)
  then show ?thesis ..
qed

lemma windows3_replicate: "windows3 (concat (replicate n [a, b, c])) = replicate n [a, b, c]"
  by (induction n) simp_all

lemma normalize_key_concat:
  "normalize_key (concat (replicate n w)) = concat (replicate n (normalize_key w))"
  by (induction n) (simp_all add: normalize_key_def str_lower_def str_replace_def)

lemma get_sequence_codons_ata:
  "get_sequence_codons (concat (replicate n ''ata'')) = replicate n ''ata''"
proof -
  have "normalize_key ''ata'' = ''ata''"
    by (simp add: normalize_key_def str_lower_def str_replace_def lower_char_def)
  then have "windows3 (normalize_key (concat (replicate n ''ata''))) = replicate n ''ata''"
    by (simp only: normalize_key_concat windows3_replicate)
  then show ?thesis by (simp add: get_sequence_codons_spec spec_codons_def)
qed

lemma str_lower_ata: "str_lower ''ata'' = ''ata''"
  by (simp add: str_lower_def lower_char_def)

lemma geometric_mean_replicate:
  assumes "0 < n" "0 \<le> x"
  shows "geometric_mean (replicate n x) = x"
  using assms by (simp add: geometric_mean_def prod_list_replicate real_root_power_cancel)

lemma ws_loop_ata:
  assumes "w_dict st = Some (map (\<lambda>c. (c, if c = ''ttt'' then 1 else if c = ''ata'' then 1 / 2 else G))
                                  weighted_codons)"
  shows "ws_loop st (replicate n ''ata'') = Inr (replicate n (1 / 2))"
proof -
  have "ws_loop st (replicate n ''ata'') =
        Inr (map (\<lambda>c. the (map_of (map (\<lambda>c. (c, if c = ''ttt'' then 1 else if c = ''ata'' then 1 / 2 else G))
                                  weighted_codons) c)) (replicate n ''ata''))"
    by (rule ws_loop_ok[OF assms]) (simp add: map_of_map_key ata_weighted)
  then show ?thesis by (simp add: map_of_map_key ata_weighted)
qed

lemma map_str_lower_ata: "map str_lower (replicate n ''ata'') = replicate n ''ata''"
  by (simp add: str_lower_ata)

subsection \<open>The score of a long sequence\<close>

text \<open>
  C1 (the score is the geometric mean of the weights of the codons of the sequence) does
  not hold of \<open>get_tai\<close> as it runs, on floats. With the affinity rows \<open>al,0\<close> and \<open>TI,0\<close>
  the calculator \<open>TAI({'aaa': 2})\<close> is built without error and its weight of the codon
  \<open>ata\<close> is 1/2. The sequence of 1100 codons \<open>ata\<close> divides into these 1100 codons, the
  weights read by \<open>get_tai\<close> are 1100 times 1/2, and their geometric mean is 1/2, which is
  also what \<open>get_tai\<close> gives over exact numbers. In binary64 arithmetic the running product
  of \<open>utils.product\<close> is \<open>2 ^ -1074\<close> after 1074 factors and rounds to 0 at the next one, so
  the product is 0 and the score returned is 0.
\<close>

theorem get_tai_float_underflow:
  "\<exists>st. TAI ex_s_dict [(''aaa'', 2)] = Inr st \<and>
        map_of (the (w_dict st)) ''ata'' = Some (1 / 2) \<and>
        get_sequence_codons (concat (replicate 1100 ''ata'')) = replicate 1100 ''ata'' \<and>
        ws_loop st (map str_lower (get_sequence_codons (concat (replicate 1100 ''ata'')))) =
          Inr (replicate 1100 (1 / 2)) \<and>
        geometric_mean (replicate 1100 (1 / 2)) = 1 / 2 \<and>
        get_tai st (concat (replicate 1100 ''ata'')) = Inr (1 / 2) \<and>
        product_float (replicate 1100 (1 / 2)) = Inr 0 \<and>
        get_tai_float st (concat (replicate 1100 ''ata'')) = Inr 0"
proof -
  from TAI_ex_aaa obtain G st where st: "TAI ex_s_dict [(''aaa'', 2)] = Inr st"
    and w: "w_dict st = Some (map (\<lambda>c. (c, if c = ''ttt'' then 1 else if c = ''ata'' then 1 / 2 else G))
                                  weighted_codons)"
    by force
  have ata: "map_of (the (w_dict st)) ''ata'' = Some (1 / 2)"
    by (simp add: w map_of_map_key ata_weighted)
  have cods: "get_sequence_codons (concat (replicate 1100 ''ata'')) = replicate 1100 ''ata''"
    by (rule get_sequence_codons_ata)
  have ws: "ws_loop st (map str_lower (get_sequence_codons (concat (replicate 1100 ''ata'')))) =
          Inr (replicate 1100 (1 / 2))"
    by (simp only: cods map_str_lower_ata ws_loop_ata[OF w])
  have gm: "geometric_mean (replicate 1100 (1 / 2 :: real)) = 1 / 2"
    by (rule geometric_mean_replicate) simp_all
  have ne: "replicate 1100 (1 / 2 :: real) \<noteq> []" by simp
  have nn: "0 \<le> prod_list (replicate 1100 (1 / 2 :: real))"
    by (simp only: prod_list_replicate) simp
  have exact: "get_tai st (concat (replicate 1100 ''ata'')) = Inr (1 / 2)"
    by (simp only: get_tai_def Let_def ws sum.case geo_mean_nonneg[OF ne nn] gm)
  have pf: "product_float (replicate 1100 (1 / 2)) = Inr 0"
    by (rule product_float_1100)
  have pw: "pow_inv 0 (length (replicate 1100 (1 / 2 :: real))) = Inr 0"
    by (simp add: pow_inv_def)
  have fl: "get_tai_float st (concat (replicate 1100 ''ata'')) = Inr 0"
    by (simp only: get_tai_float_def Let_def ws sum.case geo_mean_float_def pf pw)
  from st ata cods ws gm exact pf fl show ?thesis by blast
qed

end
